theory Spec2Isabelle
  imports Main "HOL-Library.Sublist"
begin

section \<open>The provisioning script: strings, errors, file system\<close>

text \<open>
  The script downloads the sing-box release archives, the Windows sysproxy helper and two
  rule databases. Its functions are \<^verbatim>\<open>async\<close>: they read the network, write the
  file system and throw. The model passes the file system explicitly, returns a thrown
  error as \<open>Inl\<close>, and takes what the network and the archive libraries do as parameters.
  Console output and the elapsed times printed in it are not modelled.
\<close>

type_synonym url = string
type_synonym path = string
type_synonym content = string

text \<open>A thrown value: \<^verbatim>\<open>new Error(message)\<close>, or whatever the runtime throws; only
  \<^verbatim>\<open>.message\<close> is ever read.\<close>

datatype js_error = Error (message: string)

text \<open>Template literals render numbers in decimal. Both numbers that are rendered (the
  HTTP status, \<^verbatim>\<open>maxRetries\<close>) are modelled as integers.\<close>

definition digit :: "nat \<Rightarrow> char" where
  "digit n = ''0123456789'' ! n"

fun nat_str :: "nat \<Rightarrow> string" where
  "nat_str n = (if n < 10 then [digit n] else nat_str (n div 10) @ [digit (n mod 10)])"

declare nat_str.simps [simp del]

definition int_str :: "int \<Rightarrow> string" where
  "int_str i = (if i < 0 then CHR ''-'' # nat_str (nat (- i)) else nat_str (nat i))"

definition quoted :: "string \<Rightarrow> string" where
  "quoted s = [CHR 0x27] @ s @ [CHR 0x27]"

text \<open>
  The file system is a store from paths to nodes. Paths are the strings the script builds;
  \<open>q\<close> lies below directory \<open>d\<close> when \<open>d/\<close> is a prefix of \<open>q\<close>.
\<close>

datatype node = File content | Dir

type_synonym filesystem = "path \<Rightarrow> node option"

definition below :: "path \<Rightarrow> path \<Rightarrow> bool" where
  "below d q = prefix (d @ ''/'') q"

definition existsSync :: "filesystem \<Rightarrow> path \<Rightarrow> bool" where
  "existsSync fs p = (fs p \<noteq> None)"

text \<open>\<^verbatim>\<open>fs.unlinkSync\<close> removes a file and throws on a directory or a missing path.\<close>

definition unlinkSync :: "filesystem \<Rightarrow> path \<Rightarrow> js_error + filesystem" where
  "unlinkSync fs p =
     (case fs p of
        Some (File c) \<Rightarrow> Inr (fs(p := None))
      | Some Dir \<Rightarrow> Inl (Error (''EPERM: operation not permitted, unlink '' @ quoted p))
      | None \<Rightarrow> Inl (Error (''ENOENT: no such file or directory, unlink '' @ quoted p)))"

text \<open>The directories above a path, outermost first: the prefixes that end before a \<open>/\<close>.\<close>

fun ancestors_from :: "path \<Rightarrow> path \<Rightarrow> path list" where
  "ancestors_from acc [] = []"
| "ancestors_from acc (c # cs) = (if c = CHR ''/'' then [acc] else []) @ ancestors_from (acc @ [c]) cs"

definition ancestors :: "path \<Rightarrow> path list" where
  "ancestors p = ancestors_from [] p"

fun is_file :: "node option \<Rightarrow> bool" where
  "is_file (Some (File c)) = True"
| "is_file n = False"

text \<open>\<^verbatim>\<open>fs.mkdirSync(p, { recursive: true })\<close> creates \<open>p\<close> and its missing ancestors. It
  throws when a regular file stands at \<open>p\<close> or at one of its ancestors, and when the
  operating system refuses (no permission, read-only volume): \<open>refused p\<close> is then the error.
  The script only calls it behind \<^verbatim>\<open>!fs.existsSync(p)\<close>.\<close>

definition mkdirSync_recursive :: "(path \<Rightarrow> js_error option) \<Rightarrow> filesystem \<Rightarrow> path \<Rightarrow> js_error + filesystem" where
  "mkdirSync_recursive refused fs p =
     (case refused p of
        Some err \<Rightarrow> Inl err
      | None \<Rightarrow>
          if is_file (fs p) then Inl (Error (''EEXIST: file already exists, mkdir '' @ quoted p))
          else if list_ex (\<lambda>q. is_file (fs q)) (ancestors p)
          then Inl (Error (''ENOTDIR: not a directory, mkdir '' @ quoted p))
          else Inr (\<lambda>q. if (q = p \<or> below q p) \<and> fs q = None then Some Dir else fs q))"

definition ensure_dir :: "(path \<Rightarrow> js_error option) \<Rightarrow> filesystem \<Rightarrow> path \<Rightarrow> js_error + filesystem" where
  "ensure_dir refused fs p = (if existsSync fs p then Inr fs else mkdirSync_recursive refused fs p)"

text \<open>\<^verbatim>\<open>fs.rmSync(d, { recursive: true, force: true })\<close> removes \<open>d\<close> and all below it.\<close>

definition rmSync_recursive :: "filesystem \<Rightarrow> path \<Rightarrow> filesystem" where
  "rmSync_recursive fs d = (\<lambda>q. if q = d \<or> below d q then None else fs q)"

text \<open>\<^verbatim>\<open>fs.renameSync\<close> throws when the source is missing. It moves a file, replacing a
  file at the target, and throws when the target is a directory. It moves a directory with
  all below it; here that is modelled for a free target outside the source, and any other
  target throws.\<close>

definition renameSync :: "filesystem \<Rightarrow> path \<Rightarrow> path \<Rightarrow> js_error + filesystem" where
  "renameSync fs src dst =
     (case fs src of
        None \<Rightarrow> Inl (Error (''ENOENT: no such file or directory, rename '' @ quoted src))
      | Some (File c) \<Rightarrow>
          if fs dst = Some Dir
          then Inl (Error (''EISDIR: illegal operation on a directory, rename '' @ quoted src))
          else Inr ((fs(src := None))(dst \<mapsto> File c))
      | Some Dir \<Rightarrow>
          if fs dst \<noteq> None \<or> dst = src \<or> below src dst
          then Inl (Error (''ENOTEMPTY: directory not empty, rename '' @ quoted src))
          else Inr (\<lambda>q. if q = dst then Some Dir
                         else if below dst q then fs (src @ drop (length dst) q)
                         else if q = src \<or> below src q then None
                         else fs q))"

text \<open>\<^verbatim>\<open>path.join\<close> on two segments and \<^verbatim>\<open>path.dirname\<close>, for the paths the script
  builds (no \<^verbatim>\<open>.\<close> or \<^verbatim>\<open>..\<close> segments to normalise).\<close>

definition path_join :: "path \<Rightarrow> path \<Rightarrow> path" where
  "path_join a b = a @ ''/'' @ b"

definition path_dirname :: "path \<Rightarrow> path" where
  "path_dirname p = rev (drop 1 (dropWhile (\<lambda>c. c \<noteq> CHR ''/'') (rev p)))"

section \<open>downloadFile\<close>

text \<open>
  What one \<^verbatim>\<open>fetch\<close> and the streaming of its body do is the environment's choice.
  \<^item> \<open>FetchRejected e\<close>: \<^verbatim>\<open>await fetch(url, ...)\<close> throws \<open>e\<close> (a network error, or the abort
    after 60 seconds).
  \<^item> \<open>Response ok status body\<close>: the fields the code reads. \<open>body = None\<close> is a null
    \<^verbatim>\<open>response.body\<close>; \<open>Some r\<close> says how \<^verbatim>\<open>streamPipeline(body, createWriteStream(dest))\<close>
    ends, the opening of the destination included: \<open>Piped c\<close> has written all of \<open>c\<close>;
    \<open>PipeBroken w e\<close> rejects with \<open>e\<close> after leaving \<open>w\<close> at the destination (\<open>None\<close>: the
    file was never opened, as when its directory is missing; \<open>Some c\<close>: a truncated file
    \<open>c\<close>); \<open>PipeBrokenBeforeOpen e\<close> rejects with \<open>e\<close> while the write stream is still
    opening the destination: the \<^verbatim>\<open>catch\<close> block runs first, and the open completes after
    it and leaves an empty file.
\<close>

datatype pipeline_result =
    Piped content
  | PipeBroken "content option" js_error
  | PipeBrokenBeforeOpen js_error

datatype fetch_result = FetchRejected js_error | Response bool int "pipeline_result option"

type_synonym transport = "url \<Rightarrow> int \<Rightarrow> fetch_result"

fun succeeds :: "fetch_result \<Rightarrow> bool" where
  "succeeds (Response True st (Some (Piped c))) = True"
| "succeeds r = False"


text \<open>\<^verbatim>\<open>createWriteStream(dest)\<close> cannot open a directory; otherwise the pipeline leaves
  at \<open>dest\<close> what the environment says.\<close>

definition streamPipeline :: "filesystem \<Rightarrow> path \<Rightarrow> pipeline_result \<Rightarrow> (js_error + unit) \<times> filesystem" where
  "streamPipeline fs dest r =
     (if fs dest = Some Dir
      then (Inl (Error (''EISDIR: illegal operation on a directory, open '' @ quoted dest)), fs)
      else (case r of
              Piped c \<Rightarrow> (Inr (), fs(dest \<mapsto> File c))
            | PipeBroken None e \<Rightarrow> (Inl e, fs)
            | PipeBroken (Some c) e \<Rightarrow> (Inl e, fs(dest \<mapsto> File c))
            | PipeBrokenBeforeOpen e \<Rightarrow> (Inl e, fs)))"

text \<open>The two errors the \<^verbatim>\<open>try\<close> block throws itself (lines 145 and 149).\<close>

definition http_error :: "url \<Rightarrow> int \<Rightarrow> js_error" where
  "http_error u st = Error (''Download failed: '' @ quoted u @ '' ('' @ int_str st @ '')'')"

definition empty_body_error :: js_error where
  "empty_body_error = Error ''Response body is empty''"

text \<open>The \<^verbatim>\<open>try\<close> block of one attempt (source lines 137 to 153).\<close>

definition try_attempt :: "url \<Rightarrow> path \<Rightarrow> fetch_result \<Rightarrow> filesystem \<Rightarrow> (js_error + unit) \<times> filesystem" where
  "try_attempt u dest r fs =
     (case r of
        FetchRejected e \<Rightarrow> (Inl e, fs)
      | Response ok st body \<Rightarrow>
          if \<not> ok then (Inl (http_error u st), fs)
          else (case body of
                  None \<Rightarrow> (Inl empty_body_error, fs)
                | Some pr \<Rightarrow> streamPipeline fs dest pr))"

text \<open>The cleanup at the head of the \<^verbatim>\<open>catch\<close> block (lines 158 to 160); the unlink can
  throw, and then the exception leaves \<^verbatim>\<open>downloadFile\<close>.\<close>

definition cleanup :: "filesystem \<Rightarrow> path \<Rightarrow> js_error + filesystem" where
  "cleanup fs dest = (if existsSync fs dest then unlinkSync fs dest else Inr fs)"

text \<open>The open that a failed attempt left pending completes once the \<^verbatim>\<open>catch\<close> block has
  looked at the destination: \<^verbatim>\<open>createWriteStream\<close> opens with flag \<^verbatim>\<open>w\<close>, so an empty file
  appears, which nothing removes.\<close>

fun opens_late :: "fetch_result \<Rightarrow> bool" where
  "opens_late (Response True st (Some (PipeBrokenBeforeOpen err))) = True"
| "opens_late r = False"

definition late_open :: "fetch_result \<Rightarrow> filesystem \<Rightarrow> path \<Rightarrow> filesystem" where
  "late_open r fs dest = (if opens_late r then fs(dest \<mapsto> File []) else fs)"

text \<open>The delay awaited at the end of the \<^verbatim>\<open>catch\<close> block (lines 162 to 166), in ms.\<close>

definition backoff :: "int \<Rightarrow> int \<Rightarrow> int option" where
  "backoff attempt maxRetries = (if attempt < maxRetries then Some (attempt * 1000) else None)"

text \<open>The error thrown after the loop (line 170); \<^verbatim>\<open>lastError?.message\<close> of \<^verbatim>\<open>null\<close>
  renders as \<^verbatim>\<open>undefined\<close>.\<close>

definition exhausted :: "int \<Rightarrow> url \<Rightarrow> js_error option \<Rightarrow> js_error" where
  "exhausted maxRetries u lastError =
     Error (''Download failed after '' @ int_str maxRetries @ '' attempts: '' @ quoted u @
            ''. Last error: '' @ (case lastError of None \<Rightarrow> ''undefined'' | Some e \<Rightarrow> message e))"

text \<open>
  One record per loop iteration: the attempt number, the error caught (\<open>None\<close> when the
  attempt returned), the file system the iteration leaves (a pending open completed), and
  the delay it awaited.
\<close>

record iteration =
  it_attempt :: int
  it_error :: "js_error option"
  it_fs :: filesystem
  it_wait :: "int option"

text \<open>The loop of \<^verbatim>\<open>downloadFile\<close> from \<open>attempt\<close> on, with the current \<^verbatim>\<open>lastError\<close>.
  \<open>tr n\<close> is what attempt \<open>n\<close> meets on the network.\<close>

function downloadFile_loop ::
  "url \<Rightarrow> path \<Rightarrow> int \<Rightarrow> (int \<Rightarrow> fetch_result) \<Rightarrow> int \<Rightarrow> js_error option \<Rightarrow> filesystem
     \<Rightarrow> (js_error + unit) \<times> filesystem \<times> iteration list" where
  "downloadFile_loop u dest maxRetries tr attempt lastError fs =
     (if attempt \<le> maxRetries then
        (case try_attempt u dest (tr attempt) fs of
           (Inr _, fs1) \<Rightarrow>
             (Inr (), fs1,
              [\<lparr>it_attempt = attempt, it_error = None, it_fs = fs1, it_wait = None\<rparr>])
         | (Inl err, fs1) \<Rightarrow>
             (case cleanup fs1 dest of
                Inl thrown \<Rightarrow>
                  (Inl thrown, fs1,
                   [\<lparr>it_attempt = attempt, it_error = Some err, it_fs = fs1, it_wait = None\<rparr>])
              | Inr fs2 \<Rightarrow>
                  (case downloadFile_loop u dest maxRetries tr (attempt + 1) (Some err)
                          (late_open (tr attempt) fs2 dest) of
                     (res, fs3, its) \<Rightarrow>
                       (res, fs3,
                        \<lparr>it_attempt = attempt, it_error = Some err,
                         it_fs = late_open (tr attempt) fs2 dest,
                         it_wait = backoff attempt maxRetries\<rparr> # its))))
      else (Inl (exhausted maxRetries u lastError), fs, []))"
  by pat_completeness auto
termination
  by (relation "measure (\<lambda>(u, dest, maxRetries, tr, attempt, lastError, fs). nat (maxRetries + 1 - attempt))") auto

declare downloadFile_loop.simps [simp del]

definition downloadFile ::
  "(int \<Rightarrow> fetch_result) \<Rightarrow> url \<Rightarrow> path \<Rightarrow> int \<Rightarrow> filesystem
     \<Rightarrow> (js_error + unit) \<times> filesystem \<times> iteration list" where
  "downloadFile tr u dest maxRetries fs = downloadFile_loop u dest maxRetries tr 1 None fs"

text \<open>Every caller leaves \<^verbatim>\<open>maxRetries\<close> at its default.\<close>

definition default_maxRetries :: int where
  "default_maxRetries = 3"

section \<open>Constants and environment\<close>

definition BINARY_NAME :: string where
  "BINARY_NAME = ''sing-box''"

definition GITHUB_RELEASE_URL :: url where
  "GITHUB_RELEASE_URL = ''https://github.com/caocaocc/sing-box/releases/download/''"

definition SYSPROXY_URL :: url where
  "SYSPROXY_URL = ''https://github.com/clash-verge-rev/sysproxy/releases/download/x64/sysproxy.exe''"

definition SkipVersionList :: "string list" where
  "SkipVersionList = [''v1.12.5'']"

text \<open>The target table, in the order \<^verbatim>\<open>Object.entries\<close> walks it.\<close>

type_synonym matrix = "(string \<times> (string \<times> string) list) list"

definition RUST_TARGET_TRIPLES :: matrix where
  "RUST_TARGET_TRIPLES =
     [(''darwin'', [(''arm64'', ''aarch64-apple-darwin''), (''amd64'', ''x86_64-apple-darwin'')]),
      (''linux'', [(''amd64'', ''x86_64-unknown-linux-gnu''), (''arm64'', ''aarch64-unknown-linux-gnu'')]),
      (''windows'', [(''amd64'', ''x86_64-pc-windows-msvc'')])]"

definition dbFiles :: "(string \<times> url) list" where
  "dbFiles =
     [(''mixed-cache-rule-v1.db'',
       ''https://github.com/caocaocc/conf-template/raw/refs/heads/stable/database/1.12/zh-cn/mixed-cache-rule-v1.db''),
      (''tun-cache-rule-v1.db'',
       ''https://github.com/caocaocc/conf-template/raw/refs/heads/stable/database/1.12/zh-cn/tun-cache-rule-v1.db'')]"

definition resourcesDir :: path where
  "resourcesDir = ''src-tauri/resources''"

text \<open>
  What the script reads from outside: the network, the two archive libraries (which
  entries, relative to the output directory, they write for an archive's bytes, and the
  error they end with, if any), \<^verbatim>\<open>__dirname\<close>, the \<^verbatim>\<open>Date.now()\<close> and
  \<^verbatim>\<open>Math.random().toString(36).substring(7)\<close> that name the temporary directory of the
  task for a platform and an architecture, the error with which the operating system
  refuses to create a directory, if it does, and how many bytes of a body are in the
  destination file while its pipeline is still pending. \<^verbatim>\<open>SING_BOX_VERSION\<close> is imported
  from a module that is not part of the script and is a parameter \<open>version\<close> throughout.
\<close>

type_synonym unpacker = "content \<Rightarrow> (path \<times> node) list \<times> js_error option"

record env =
  transport :: transport
  unzip :: unpacker
  untar :: unpacker
  dirname :: path
  date_now :: "string \<Rightarrow> string \<Rightarrow> int"
  random36 :: "string \<Rightarrow> string \<Rightarrow> string"
  mkdir_error :: "path \<Rightarrow> js_error option"
  flushed :: "url \<Rightarrow> int \<Rightarrow> nat"

section \<open>extractFile and embeddingExternalBinaries\<close>

definition write_entries :: "filesystem \<Rightarrow> path \<Rightarrow> (path \<times> node) list \<Rightarrow> filesystem" where
  "write_entries fs dir entries = fold (\<lambda>(rel, n) f. f(path_join dir rel \<mapsto> n)) entries fs"

definition extractFile :: "env \<Rightarrow> path \<Rightarrow> string \<Rightarrow> path \<Rightarrow> filesystem \<Rightarrow> (js_error + unit) \<times> filesystem" where
  "extractFile e filePath fileExtension tmpDir fs =
     (case fs filePath of
        Some (File bytes) \<Rightarrow>
          (case (if fileExtension = ''zip'' then unzip e bytes else untar e bytes) of
             (entries, None) \<Rightarrow> (Inr (), write_entries fs tmpDir entries)
           | (entries, Some err) \<Rightarrow> (Inl err, write_entries fs tmpDir entries))
      | Some Dir \<Rightarrow> (Inl (Error (''EISDIR: illegal operation on a directory, read '' @ quoted filePath)), fs)
      | None \<Rightarrow> (Inl (Error (''ENOENT: no such file or directory, open '' @ quoted filePath)), fs))"

definition fileExtension_of :: "string \<Rightarrow> string" where
  "fileExtension_of platform = (if platform = ''windows'' then ''zip'' else ''tar.gz'')"

definition fileName_of :: "string \<Rightarrow> string \<Rightarrow> string" where
  "fileName_of platform arch =
     BINARY_NAME @ ''-'' @ platform @ ''-'' @ arch @ ''.'' @ fileExtension_of platform"

text \<open>\<^verbatim>\<open>SING_BOX_VERSION.substring(1)\<close> is \<open>drop 1 version\<close>.\<close>

definition downloadUrl :: "string \<Rightarrow> string \<Rightarrow> string \<Rightarrow> url" where
  "downloadUrl version platform arch =
     GITHUB_RELEASE_URL @ version @ ''/'' @ BINARY_NAME @ ''-'' @ drop 1 version @ ''-'' @ platform @
       ''-'' @ arch @ ''.'' @ fileExtension_of platform"

definition tmpDir_of :: "env \<Rightarrow> string \<Rightarrow> string \<Rightarrow> path" where
  "tmpDir_of e platform arch =
     path_join (path_join (dirname e) ''tmp'')
       (platform @ ''-'' @ arch @ ''-'' @ int_str (date_now e platform arch) @ ''-'' @ random36 e platform arch)"

definition downloadPath_of :: "env \<Rightarrow> string \<Rightarrow> string \<Rightarrow> path" where
  "downloadPath_of e platform arch = path_join (tmpDir_of e platform arch) (fileName_of platform arch)"

definition extractedFilePath_of :: "env \<Rightarrow> string \<Rightarrow> string \<Rightarrow> string \<Rightarrow> string \<Rightarrow> path" where
  "extractedFilePath_of e version platform arch extension =
     path_join (tmpDir_of e platform arch)
       (BINARY_NAME @ ''-'' @ drop 1 version @ ''-'' @ platform @ ''-'' @ arch @ ''/'' @ BINARY_NAME @ extension)"

definition targetPath_of :: "string \<Rightarrow> string \<Rightarrow> path" where
  "targetPath_of targetTriple extension = ''src-tauri/binaries/'' @ BINARY_NAME @ ''-'' @ targetTriple @ extension"

text \<open>Lines 202 to 214: all that follows the download inside the \<^verbatim>\<open>try\<close> block. The
  \<^verbatim>\<open>catch\<close> block logs and rethrows, so a throw ends the task with the file system as
  it is at that point.\<close>

definition unpack_and_place ::
  "env \<Rightarrow> string \<Rightarrow> string \<Rightarrow> string \<Rightarrow> string \<Rightarrow> string \<Rightarrow> filesystem \<Rightarrow> (js_error + unit) \<times> filesystem" where
  "unpack_and_place e version platform arch extension targetTriple fs =
     (case extractFile e (downloadPath_of e platform arch) (fileExtension_of platform) (tmpDir_of e platform arch) fs of
        (Inl err, fs1) \<Rightarrow> (Inl err, fs1)
      | (Inr _, fs1) \<Rightarrow>
          (let targetPath = targetPath_of targetTriple extension
           in case ensure_dir (mkdir_error e) fs1 (path_dirname targetPath) of
                Inl err \<Rightarrow> (Inl err, fs1)
              | Inr fs2 \<Rightarrow>
                  (case renameSync fs2 (extractedFilePath_of e version platform arch extension) targetPath of
                     Inl err \<Rightarrow> (Inl err, fs2)
                   | Inr fs3 \<Rightarrow> (Inr (), rmSync_recursive fs3 (tmpDir_of e platform arch)))))"

definition embeddingExternalBinaries ::
  "env \<Rightarrow> string \<Rightarrow> string \<Rightarrow> string \<Rightarrow> string \<Rightarrow> string \<Rightarrow> filesystem \<Rightarrow> (js_error + unit) \<times> filesystem" where
  "embeddingExternalBinaries e version platform arch extension targetTriple fs =
     (let url = downloadUrl version platform arch
      in case ensure_dir (mkdir_error e) fs (tmpDir_of e platform arch) of
           Inl err \<Rightarrow> (Inl err, fs)
         | Inr fs1 \<Rightarrow>
             (case downloadFile (transport e url) url (downloadPath_of e platform arch) default_maxRetries fs1 of
                (Inl err, fs2, its) \<Rightarrow> (Inl err, fs2)
              | (Inr _, fs2, its) \<Rightarrow> unpack_and_place e version platform arch extension targetTriple fs2))"

section \<open>The tasks that download straight to their destination\<close>

definition sysproxy_targetPath :: "string \<Rightarrow> string \<Rightarrow> path" where
  "sysproxy_targetPath targetTriple extension = ''src-tauri/binaries/sysproxy-'' @ targetTriple @ extension"

text \<open>The anonymous task of lines 243 to 255.\<close>

definition sysproxy_task ::
  "env \<Rightarrow> string \<Rightarrow> string \<Rightarrow> filesystem \<Rightarrow> (js_error + unit) \<times> filesystem \<times> iteration list" where
  "sysproxy_task e targetTriple extension fs =
     (let targetPath = sysproxy_targetPath targetTriple extension
      in case ensure_dir (mkdir_error e) fs (path_dirname targetPath) of
           Inl err \<Rightarrow> (Inl err, fs, [])
         | Inr fs1 \<Rightarrow> downloadFile (transport e SYSPROXY_URL) SYSPROXY_URL targetPath default_maxRetries fs1)"

text \<open>One element of \<^verbatim>\<open>dbFiles.map(async (dbFile) => ...)\<close>, lines 342 to 349.\<close>

definition database_task ::
  "env \<Rightarrow> string \<Rightarrow> url \<Rightarrow> filesystem \<Rightarrow> (js_error + unit) \<times> filesystem \<times> iteration list" where
  "database_task e name u fs =
     downloadFile (transport e u) u (path_join resourcesDir name) default_maxRetries fs"

section \<open>Running the tasks together\<close>

text \<open>
  The script starts every task before it awaits any (\<^verbatim>\<open>Promise.all\<close> over promises that
  are already running). A task runs until its next \<^verbatim>\<open>await\<close> and resumes when the awaited
  operation completes, so its progress is a program counter: waiting for the response of
  attempt \<open>n\<close> (line 140), waiting for the pipeline that streams the body of attempt \<open>n\<close>
  to the destination (line 152), waiting for the timer after the failed attempt \<open>n\<close>
  (line 165), waiting for the extraction (line 202), or settled.
\<close>

datatype job =
    Binary string string string string
  | Sysproxy string string
  | Database string url

datatype pc = Fetching int | Streaming int | Sleeping int js_error | Extracting | Fulfilled | Rejected js_error

fun job_url :: "string \<Rightarrow> job \<Rightarrow> url" where
  "job_url version (Binary platform arch extension targetTriple) = downloadUrl version platform arch"
| "job_url version (Sysproxy targetTriple extension) = SYSPROXY_URL"
| "job_url version (Database name u) = u"

fun job_dest :: "env \<Rightarrow> job \<Rightarrow> path" where
  "job_dest e (Binary platform arch extension targetTriple) = downloadPath_of e platform arch"
| "job_dest e (Sysproxy targetTriple extension) = sysproxy_targetPath targetTriple extension"
| "job_dest e (Database name u) = path_join resourcesDir name"

text \<open>What follows a returned \<^verbatim>\<open>downloadFile\<close>: the installer awaits the extraction, the
  other two tasks only log.\<close>

fun after_download :: "job \<Rightarrow> pc" where
  "after_download (Binary platform arch extension targetTriple) = Extracting"
| "after_download j = Fulfilled"

text \<open>The head of the loop of \<^verbatim>\<open>downloadFile\<close>: the next attempt starts its request, or
  the loop is left and the function throws.\<close>

definition loop_head :: "url \<Rightarrow> int \<Rightarrow> js_error option \<Rightarrow> pc \<times> (url \<times> int) list" where
  "loop_head u attempt lastError =
     (if attempt \<le> default_maxRetries then (Fetching attempt, [(u, attempt)])
      else (Rejected (exhausted default_maxRetries u lastError), []))"

text \<open>The \<^verbatim>\<open>catch\<close> block of attempt \<open>n\<close>, entered with the error \<open>err\<close>, up to its timer or, at
  the last attempt, up to the throw after the loop. An open left pending by the attempt is
  taken to complete within this step.\<close>

definition catch_step ::
  "url \<Rightarrow> path \<Rightarrow> int \<Rightarrow> js_error \<Rightarrow> fetch_result \<Rightarrow> filesystem \<Rightarrow> pc \<times> filesystem \<times> (url \<times> int) list" where
  "catch_step u dest n err r fs1 =
     (case cleanup fs1 dest of
        Inl thrown \<Rightarrow> (Rejected thrown, fs1, [])
      | Inr fs2 \<Rightarrow>
          (case backoff n default_maxRetries of
             Some w \<Rightarrow> (Sleeping n err, late_open r fs2 dest, [])
           | None \<Rightarrow> (case loop_head u (n + 1) (Some err) of (p, rq) \<Rightarrow> (p, late_open r fs2 dest, rq))))"

text \<open>While a pipeline is pending the write stream has opened the destination and written
  the first bytes of the body, as many as the environment says; nothing is there from a
  pipeline that never gets to open it.\<close>

definition in_flight :: "nat \<Rightarrow> filesystem \<Rightarrow> path \<Rightarrow> pipeline_result \<Rightarrow> filesystem" where
  "in_flight k fs dest r =
     (if fs dest = Some Dir then fs
      else (case r of
              Piped c \<Rightarrow> fs(dest \<mapsto> File (take k c))
            | PipeBroken None e \<Rightarrow> fs
            | PipeBroken (Some c) e \<Rightarrow> fs(dest \<mapsto> File (take k c))
            | PipeBrokenBeforeOpen e \<Rightarrow> fs))"

text \<open>The \<^verbatim>\<open>fetch\<close> of attempt \<open>n\<close> settles (line 140): the task throws into its \<^verbatim>\<open>catch\<close>
  block, or it creates the write stream and awaits the pipeline.\<close>

definition fetch_step ::
  "env \<Rightarrow> url \<Rightarrow> path \<Rightarrow> int \<Rightarrow> filesystem \<Rightarrow> pc \<times> filesystem \<times> (url \<times> int) list" where
  "fetch_step e u dest n fs =
     (case transport e u n of
        FetchRejected err \<Rightarrow> catch_step u dest n err (transport e u n) fs
      | Response ok st body \<Rightarrow>
          if \<not> ok then catch_step u dest n (http_error u st) (transport e u n) fs
          else (case body of
                  None \<Rightarrow> catch_step u dest n empty_body_error (transport e u n) fs
                | Some pr \<Rightarrow> (Streaming n, in_flight (flushed e u n) fs dest pr, [])))"

text \<open>The pipeline of attempt \<open>n\<close> settles (line 152): \<^verbatim>\<open>downloadFile\<close> returns, or the task
  is in its \<^verbatim>\<open>catch\<close> block. A task awaits a pipeline only for a response with a body.\<close>

definition stream_step ::
  "env \<Rightarrow> url \<Rightarrow> path \<Rightarrow> pc \<Rightarrow> int \<Rightarrow> filesystem \<Rightarrow> pc \<times> filesystem \<times> (url \<times> int) list" where
  "stream_step e u dest done n fs =
     (case transport e u n of
        FetchRejected err \<Rightarrow> (Streaming n, fs, [])
      | Response ok st body \<Rightarrow>
          (case body of
             None \<Rightarrow> (Streaming n, fs, [])
           | Some pr \<Rightarrow>
               (case streamPipeline fs dest pr of
                  (Inr _, fs1) \<Rightarrow> (done, fs1, [])
                | (Inl err, fs1) \<Rightarrow> catch_step u dest n err (transport e u n) fs1)))"

text \<open>One step of a task: the operation it awaits completes and it runs to its next
  \<^verbatim>\<open>await\<close>. A settled task has no step.\<close>

definition task_step ::
  "env \<Rightarrow> string \<Rightarrow> job \<Rightarrow> pc \<Rightarrow> filesystem \<Rightarrow> pc \<times> filesystem \<times> (url \<times> int) list" where
  "task_step e version j p fs =
     (case p of
        Fetching n \<Rightarrow> fetch_step e (job_url version j) (job_dest e j) n fs
      | Streaming n \<Rightarrow> stream_step e (job_url version j) (job_dest e j) (after_download j) n fs
      | Sleeping n err \<Rightarrow> (case loop_head (job_url version j) (n + 1) (Some err) of (p', rq) \<Rightarrow> (p', fs, rq))
      | Extracting \<Rightarrow>
          (case j of
             Binary platform arch extension targetTriple \<Rightarrow>
               (case unpack_and_place e version platform arch extension targetTriple fs of
                  (Inl err, fs1) \<Rightarrow> (Rejected err, fs1, [])
                | (Inr _, fs1) \<Rightarrow> (Fulfilled, fs1, []))
           | _ \<Rightarrow> (Extracting, fs, []))
      | Fulfilled \<Rightarrow> (Fulfilled, fs, [])
      | Rejected err \<Rightarrow> (Rejected err, fs, []))"

text \<open>The state of the process: the file system, every task started with its program
  counter, and the requests sent so far (URL and attempt number).\<close>

record config =
  cfg_fs :: filesystem
  cfg_tasks :: "(job \<times> pc) list"
  cfg_requests :: "(url \<times> int) list"

text \<open>Starting a task runs it up to its first \<^verbatim>\<open>await\<close>: the installer and the sysproxy
  task make their directory, then each enters \<^verbatim>\<open>downloadFile\<close>. When making the
  directory throws, the task is rejected from the start and has sent no request.\<close>

fun launch_fs :: "env \<Rightarrow> job \<Rightarrow> filesystem \<Rightarrow> js_error + filesystem" where
  "launch_fs e (Binary platform arch extension targetTriple) fs =
     ensure_dir (mkdir_error e) fs (tmpDir_of e platform arch)"
| "launch_fs e (Sysproxy targetTriple extension) fs =
     ensure_dir (mkdir_error e) fs (path_dirname (sysproxy_targetPath targetTriple extension))"
| "launch_fs e (Database name u) fs = Inr fs"

definition launch :: "env \<Rightarrow> string \<Rightarrow> job \<Rightarrow> config \<Rightarrow> config" where
  "launch e version j c =
     (case launch_fs e j (cfg_fs c) of
        Inl err \<Rightarrow> c\<lparr>cfg_tasks := cfg_tasks c @ [(j, Rejected err)]\<rparr>
      | Inr fs \<Rightarrow>
          (case loop_head (job_url version j) 1 None of
             (p, rq) \<Rightarrow>
               \<lparr>cfg_fs = fs, cfg_tasks = cfg_tasks c @ [(j, p)], cfg_requests = cfg_requests c @ rq\<rparr>))"

text \<open>The loops of \<^verbatim>\<open>downloadEmbeddingExternalBinaries\<close>, lines 228 to 259.\<close>

definition jobs_of_matrix :: "matrix \<Rightarrow> job list" where
  "jobs_of_matrix m =
     concat (map (\<lambda>(platform, archs).
       concat (map (\<lambda>(arch, targetTriple).
         (let extension = (if platform = ''windows'' then ''.exe'' else [])
          in Binary platform arch extension targetTriple #
             (if platform = ''windows'' \<and> arch = ''amd64'' then [Sysproxy targetTriple extension] else [])))
         archs)) m)"

text \<open>The two calls inside the top-level \<^verbatim>\<open>Promise.all([...])\<close>, each up to its own
  \<^verbatim>\<open>await Promise.all(downloadTasks)\<close>. \<^verbatim>\<open>downloadDatabaseFiles\<close> makes the resources
  directory before it creates its tasks (line 340); when that throws, its promise is
  rejected and none of its tasks exists: the second component is then the error.\<close>

definition launch_all ::
  "env \<Rightarrow> string \<Rightarrow> matrix \<Rightarrow> (string \<times> url) list \<Rightarrow> filesystem \<Rightarrow> config \<times> js_error option" where
  "launch_all e version m dbs fs0 =
     (let c1 = fold (launch e version) (jobs_of_matrix m) \<lparr>cfg_fs = fs0, cfg_tasks = [], cfg_requests = []\<rparr>
      in case ensure_dir (mkdir_error e) (cfg_fs c1) resourcesDir of
           Inl err \<Rightarrow> (c1, Some err)
         | Inr fs \<Rightarrow>
             (fold (launch e version) (map (\<lambda>(name, u). Database name u) dbs) (c1\<lparr>cfg_fs := fs\<rparr>), None))"

text \<open>Task \<open>i\<close> takes its step.\<close>

definition advance :: "env \<Rightarrow> string \<Rightarrow> nat \<Rightarrow> config \<Rightarrow> config" where
  "advance e version i c =
     (if i < length (cfg_tasks c) then
        (case cfg_tasks c ! i of
           (j, p) \<Rightarrow>
             (case task_step e version j p (cfg_fs c) of
                (p', fs', rq) \<Rightarrow>
                  \<lparr>cfg_fs = fs', cfg_tasks = (cfg_tasks c)[i := (j, p')],
                   cfg_requests = cfg_requests c @ rq\<rparr>))
      else c)"

fun rejected :: "pc \<Rightarrow> bool" where
  "rejected (Rejected err) = True"
| "rejected p = False"

fun fulfilled :: "pc \<Rightarrow> bool" where
  "fulfilled Fulfilled = True"
| "fulfilled p = False"

text \<open>
  \<^verbatim>\<open>Promise.all\<close> rejects as soon as one of its promises rejects and fulfils when all have
  fulfilled; both levels of \<^verbatim>\<open>Promise.all\<close> behave so, and the handlers of lines 366 to 374
  call \<^verbatim>\<open>process.exit(0)\<close> and \<^verbatim>\<open>process.exit(1)\<close>. \<open>Uncaught\<close> is a throw at the top level
  of the script.
\<close>

datatype process = Pending config | Exited int config | Uncaught js_error config

definition settle :: "config \<Rightarrow> process" where
  "settle c =
     (if list_ex (\<lambda>t. rejected (snd t)) (cfg_tasks c) then Exited 1 c
      else if list_all (\<lambda>t. fulfilled (snd t)) (cfg_tasks c) then Exited 0 c
      else Pending c)"

text \<open>A schedule lists, in the order of completion, the tasks whose awaited operation
  completes. When it is used up the process may still be pending.\<close>

fun run :: "env \<Rightarrow> string \<Rightarrow> nat list \<Rightarrow> config \<Rightarrow> process" where
  "run e version [] c = settle c"
| "run e version (i # sched) c =
     (case settle c of
        Pending c' \<Rightarrow> run e version sched (advance e version i c)
      | p \<Rightarrow> p)"

text \<open>A promise that is rejected when the tasks have been started, a task's or that of
  \<^verbatim>\<open>downloadDatabaseFiles\<close>, rejects the top-level \<^verbatim>\<open>Promise.all\<close> before any awaited
  operation completes.\<close>

definition orchestrate ::
  "env \<Rightarrow> string \<Rightarrow> matrix \<Rightarrow> (string \<times> url) list \<Rightarrow> nat list \<Rightarrow> filesystem \<Rightarrow> process" where
  "orchestrate e version m dbs sched fs0 =
     (case launch_all e version m dbs fs0 of
        (c, Some err) \<Rightarrow> Exited 1 c
      | (c, None) \<Rightarrow> run e version sched c)"

text \<open>The top level of the script, lines 355 to 375.\<close>

definition main :: "env \<Rightarrow> string \<Rightarrow> nat list \<Rightarrow> filesystem \<Rightarrow> process" where
  "main e version sched fs0 =
     (if version \<in> set SkipVersionList
      then Uncaught (Error (''Version '' @ version @ '' is in the skip list.''))
             \<lparr>cfg_fs = fs0, cfg_tasks = [], cfg_requests = []\<rparr>
      else orchestrate e version RUST_TARGET_TRIPLES dbFiles sched fs0)"

text \<open>The exit status: the argument of \<^verbatim>\<open>process.exit\<close>, or 1 for an uncaught exception.\<close>

fun exit_status :: "process \<Rightarrow> int option" where
  "exit_status (Pending c) = None"
| "exit_status (Exited code c) = Some code"
| "exit_status (Uncaught err c) = Some 1"

fun final_config :: "process \<Rightarrow> config" where
  "final_config (Pending c) = c"
| "final_config (Exited code c) = c"
| "final_config (Uncaught err c) = c"

section \<open>Notions used in the statements\<close>

text \<open>The error the \<^verbatim>\<open>catch\<close> block receives from an attempt that does not succeed, when
  the destination is not a directory.\<close>

fun attempt_error :: "url \<Rightarrow> fetch_result \<Rightarrow> js_error" where
  "attempt_error u (FetchRejected err) = err"
| "attempt_error u (Response ok st body) =
     (if \<not> ok then http_error u st
      else (case body of
              None \<Rightarrow> empty_body_error
            | Some (PipeBroken w err) \<Rightarrow> err
            | Some (PipeBrokenBeforeOpen err) \<Rightarrow> err
            | Some (Piped c) \<Rightarrow> Error []))"

text \<open>The URL as the specification words it, with the leading character stripped from
  every occurrence of the version; compared with \<open>downloadUrl\<close> below.\<close>

definition downloadUrl_all_stripped :: "string \<Rightarrow> string \<Rightarrow> string \<Rightarrow> url" where
  "downloadUrl_all_stripped version platform arch =
     GITHUB_RELEASE_URL @ drop 1 version @ ''/'' @ BINARY_NAME @ ''-'' @ drop 1 version @ ''-'' @ platform @
       ''-'' @ arch @ ''.'' @ fileExtension_of platform"

text \<open>
  The end-to-end scenario of the specification: one target, one asset, and a network on
  which the asset arrives and every request for the archive fails. The archive libraries
  unpack the one executable of a release archive, no directory is refused, and two bytes of
  a body are on disk while its pipeline is pending.
\<close>

definition scenario_matrix :: matrix where
  "scenario_matrix = [(''linux'', [(''amd64'', ''x86_64-unknown-linux-gnu'')])]"

definition scenario_assets :: "(string \<times> url) list" where
  "scenario_assets = [(''a.db'', ''https://assets.test/a.db'')]"

definition release_entries :: "(path \<times> node) list" where
  "release_entries =
     [(''sing-box-1.12.0-linux-amd64'', Dir), (''sing-box-1.12.0-linux-amd64/sing-box'', File ''ELF'')]"

definition scenario_env :: env where
  "scenario_env =
     \<lparr>transport = (\<lambda>u n. if u = ''https://assets.test/a.db''
                          then Response True 200 (Some (Piped ''rules''))
                          else FetchRejected (Error ''ECONNREFUSED'')),
      unzip = (\<lambda>bytes. (release_entries, None)),
      untar = (\<lambda>bytes. (release_entries, None)),
      dirname = ''scripts'',
      date_now = (\<lambda>platform arch. 1700000000000),
      random36 = (\<lambda>platform arch. ''k3x9q''),
      mkdir_error = (\<lambda>p. None),
      flushed = (\<lambda>u n. 2)\<rparr>"

text \<open>The same environment with a network on which every request is answered in full.\<close>

definition healthy_env :: env where
  "healthy_env = scenario_env\<lparr>transport := (\<lambda>u n. Response True 200 (Some (Piped ''bytes'')))\<rparr>"

text \<open>One on which the archive arrives and the tar library rejects it.\<close>

definition broken_archive_env :: env where
  "broken_archive_env =
     healthy_env\<lparr>untar := (\<lambda>bytes. ([], Some (Error ''TAR_BAD_ARCHIVE: Unrecognized archive format'')))\<rparr>"

text \<open>And one on a volume that cannot be written.\<close>

definition read_only_env :: env where
  "read_only_env = healthy_env\<lparr>mkdir_error := (\<lambda>p. Some (Error ''EROFS: read-only file system, mkdir''))\<rparr>"

definition no_files :: filesystem where
  "no_files = (\<lambda>p. None)"

text \<open>
  The two tasks of the scenario, and what holds of every state its runs pass through: the
  archive task is at one of its three attempts, waiting after the first or the second, or
  rejected; the asset task waits for its response, streams its body, or is fulfilled, and
  \<open>asset_file\<close> is what the asset's path holds in each case. \<open>archive_steps_left\<close> counts the
  steps from a state of the archive task to its rejection.
\<close>

definition scenario_archive :: job where
  "scenario_archive = Binary ''linux'' ''amd64'' [] ''x86_64-unknown-linux-gnu''"

definition scenario_asset :: job where
  "scenario_asset = Database ''a.db'' ''https://assets.test/a.db''"

fun archive_pc :: "pc \<Rightarrow> bool" where
  "archive_pc (Fetching n) = (1 \<le> n \<and> n \<le> 3)"
| "archive_pc (Sleeping n err) = (1 \<le> n \<and> n < 3)"
| "archive_pc (Rejected err) = True"
| "archive_pc p = False"

fun archive_steps_left :: "pc \<Rightarrow> nat" where
  "archive_steps_left (Fetching n) = 2 * nat (3 - n) + 1"
| "archive_steps_left (Sleeping n err) = 2 * nat (3 - n)"
| "archive_steps_left p = 0"

fun asset_pc :: "pc \<Rightarrow> bool" where
  "asset_pc (Fetching n) = (n = 1)"
| "asset_pc (Streaming n) = (n = 1)"
| "asset_pc Fulfilled = True"
| "asset_pc p = False"

fun asset_file :: "pc \<Rightarrow> node option" where
  "asset_file (Fetching n) = None"
| "asset_file (Streaming n) = Some (File ''ru'')"
| "asset_file p = Some (File ''rules'')"

definition scenario_inv :: "config \<Rightarrow> bool" where
  "scenario_inv c =
     (length (cfg_tasks c) = 2 \<and>
      fst (cfg_tasks c ! 0) = scenario_archive \<and> archive_pc (snd (cfg_tasks c ! 0)) \<and>
      fst (cfg_tasks c ! 1) = scenario_asset \<and> asset_pc (snd (cfg_tasks c ! 1)) \<and>
      cfg_fs c ''src-tauri/resources/a.db'' = asset_file (snd (cfg_tasks c ! 1)) \<and>
      cfg_fs c (downloadPath_of scenario_env ''linux'' ''amd64'') = None)"

text \<open>A task taken through its steps alone, and the program counter a result settles in.\<close>

definition solo_step :: "env \<Rightarrow> string \<Rightarrow> job \<Rightarrow> pc \<times> filesystem \<Rightarrow> pc \<times> filesystem" where
  "solo_step e version j s = (case task_step e version j (fst s) (snd s) of (p', fs', rq) \<Rightarrow> (p', fs'))"

fun settled_as :: "js_error + unit \<Rightarrow> pc" where
  "settled_as (Inl err) = Rejected err"
| "settled_as (Inr x) = Fulfilled"


section \<open>Facts about the loop of downloadFile\<close>


lemma try_attempt_failure:
  "fs dest \<noteq> Some Dir \<Longrightarrow> \<not> succeeds r \<Longrightarrow>
   \<exists>fs1. try_attempt u dest r fs = (Inl (attempt_error u r), fs1) \<and> fs1 dest \<noteq> Some Dir \<and>
         (\<forall>q. q \<noteq> dest \<longrightarrow> fs1 q = fs q)"
  by (cases r rule: succeeds.cases)
     (auto simp add: try_attempt_def streamPipeline_def split: option.splits pipeline_result.splits)

lemma try_attempt_keeps_dir:
  "try_attempt u dest r fs = (res, fs1) \<Longrightarrow> fs dest \<noteq> Some Dir \<Longrightarrow> fs1 dest \<noteq> Some Dir"
  by (auto simp add: try_attempt_def streamPipeline_def
      split: fetch_result.splits option.splits pipeline_result.splits if_splits)

lemma try_attempt_frame:
  "try_attempt u dest r fs = (res, fs1) \<Longrightarrow> q \<noteq> dest \<Longrightarrow> fs1 q = fs q"
  by (auto simp add: try_attempt_def streamPipeline_def
      split: fetch_result.splits option.splits pipeline_result.splits if_splits)

lemma cleanup_file:
  "fs dest \<noteq> Some Dir \<Longrightarrow> cleanup fs dest = Inr (fs(dest := None))"
  by (cases "fs dest") (auto simp add: cleanup_def existsSync_def unlinkSync_def split: node.splits)

lemma late_open_frame: "q \<noteq> dest \<Longrightarrow> late_open r fs dest q = fs q"
  by (simp add: late_open_def)

text \<open>After the \<^verbatim>\<open>catch\<close> block of a failed attempt, and the open it may have left pending,
  the destination is absent or an empty file, and nothing else has changed.\<close>

lemma failed_iteration:
  assumes "try_attempt u dest r fs = (Inl err, fs1)" and "fs dest \<noteq> Some Dir"
    and "cleanup fs1 dest = Inr fs2" and "fs3 = late_open r fs2 dest"
  shows "fs3 dest = (if opens_late r then Some (File []) else None)"
    and "fs3 dest \<noteq> Some Dir"
    and "q \<noteq> dest \<Longrightarrow> fs3 q = fs q"
proof -
  from assms(1,2) have "fs1 dest \<noteq> Some Dir" by (rule try_attempt_keeps_dir)
  then have "cleanup fs1 dest = Inr (fs1(dest := None))" by (rule cleanup_file)
  with assms(3) have fs2: "fs2 = fs1(dest := None)" by simp
  show a: "fs3 dest = (if opens_late r then Some (File []) else None)"
    by (simp add: assms(4) fs2 late_open_def)
  then show "fs3 dest \<noteq> Some Dir" by (simp split: if_splits)
  show "fs3 q = fs q" if "q \<noteq> dest"
    using that try_attempt_frame[OF assms(1), of q] by (simp add: assms(4) fs2 late_open_def)
qed

lemma loop_exit:
  "\<not> a \<le> m \<Longrightarrow> downloadFile_loop u dest m tr a le fs = (Inl (exhausted m u le), fs, [])"
  by (simp add: downloadFile_loop.simps)

lemma loop_ok:
  "a \<le> m \<Longrightarrow> try_attempt u dest (tr a) fs = (Inr x, fs1) \<Longrightarrow>
   downloadFile_loop u dest m tr a le fs =
     (Inr (), fs1, [\<lparr>it_attempt = a, it_error = None, it_fs = fs1, it_wait = None\<rparr>])"
  by (simp add: downloadFile_loop.simps[of u dest m tr a])

lemma loop_thrown:
  "a \<le> m \<Longrightarrow> try_attempt u dest (tr a) fs = (Inl err, fs1) \<Longrightarrow> cleanup fs1 dest = Inl t \<Longrightarrow>
   downloadFile_loop u dest m tr a le fs =
     (Inl t, fs1, [\<lparr>it_attempt = a, it_error = Some err, it_fs = fs1, it_wait = None\<rparr>])"
  by (simp add: downloadFile_loop.simps[of u dest m tr a])

lemma loop_retry:
  "a \<le> m \<Longrightarrow> try_attempt u dest (tr a) fs = (Inl err, fs1) \<Longrightarrow> cleanup fs1 dest = Inr fs2 \<Longrightarrow>
   fs3 = late_open (tr a) fs2 dest \<Longrightarrow>
   downloadFile_loop u dest m tr a le fs =
     (fst (downloadFile_loop u dest m tr (a + 1) (Some err) fs3),
      fst (snd (downloadFile_loop u dest m tr (a + 1) (Some err) fs3)),
      \<lparr>it_attempt = a, it_error = Some err, it_fs = fs3, it_wait = backoff a m\<rparr> #
        snd (snd (downloadFile_loop u dest m tr (a + 1) (Some err) fs3)))"
  by (simp add: downloadFile_loop.simps[of u dest m tr a] split: prod.splits)

lemma loop_cases [case_names exit ok thrown retry]:
  fixes m :: int and P :: "int \<Rightarrow> js_error option \<Rightarrow> filesystem \<Rightarrow> bool"
  assumes "\<And>a le fs. \<not> a \<le> m \<Longrightarrow> P a le fs"
    and "\<And>a le fs x fs1. a \<le> m \<Longrightarrow> try_attempt u dest (tr a) fs = (Inr x, fs1) \<Longrightarrow> P a le fs"
    and "\<And>a le fs err fs1 t. a \<le> m \<Longrightarrow> try_attempt u dest (tr a) fs = (Inl err, fs1) \<Longrightarrow>
           cleanup fs1 dest = Inl t \<Longrightarrow> P a le fs"
    and "\<And>a le fs err fs1 fs2 fs3. a \<le> m \<Longrightarrow> try_attempt u dest (tr a) fs = (Inl err, fs1) \<Longrightarrow>
           cleanup fs1 dest = Inr fs2 \<Longrightarrow> fs3 = late_open (tr a) fs2 dest \<Longrightarrow>
           P (a + 1) (Some err) fs3 \<Longrightarrow> P a le fs"
  shows "P a le fs"
proof -
  have "u' = u \<Longrightarrow> dest' = dest \<Longrightarrow> m' = m \<Longrightarrow> tr' = tr \<Longrightarrow> P a le fs" for u' dest' m' tr'
  proof (induction u' dest' m' tr' a le fs rule: downloadFile_loop.induct)
    case (1 u' dest' m' tr' a le fs)
    note eqs = "1.prems"
    show ?case
    proof (cases "a \<le> m")
      case False
      then show ?thesis by (rule assms(1))
    next
      case True
      obtain r fs1 where t: "try_attempt u dest (tr a) fs = (r, fs1)"
        by (cases "try_attempt u dest (tr a) fs")
      show ?thesis
      proof (cases r)
        case (Inr x)
        with True t show ?thesis by (auto intro: assms(2))
      next
        case (Inl err)
        show ?thesis
        proof (cases "cleanup fs1 dest")
          case (Inl thrown)
          with True t \<open>r = Inl err\<close> show ?thesis by (auto intro: assms(3))
        next
          case (Inr fs2)
          have "P (a + 1) (Some err) (late_open (tr a) fs2 dest)"
            using "1.IH"[of r fs1 err fs2] True t \<open>r = Inl err\<close> Inr eqs by simp
          with True t \<open>r = Inl err\<close> Inr show ?thesis by (auto intro: assms(4))
        qed
      qed
    qed
  qed
  then show ?thesis by simp
qed

lemma loop_log_empty:
  "snd (snd (downloadFile_loop u dest m tr a le fs)) = [] \<longleftrightarrow> \<not> a \<le> m"
proof (cases "a \<le> m")
  case False
  then show ?thesis by (simp add: loop_exit)
next
  case True
  obtain r fs1 where t: "try_attempt u dest (tr a) fs = (r, fs1)"
    by (cases "try_attempt u dest (tr a) fs")
  show ?thesis
  proof (cases r)
    case (Inr x)
    with True t show ?thesis by (simp add: loop_ok)
  next
    case (Inl err)
    with True t show ?thesis
      by (cases "cleanup fs1 dest") (simp_all add: loop_thrown loop_retry[OF _ _ _ refl])
  qed
qed

lemma loop_log:
  "i < length (snd (snd (downloadFile_loop u dest m tr a le fs))) \<Longrightarrow>
   it_attempt (snd (snd (downloadFile_loop u dest m tr a le fs)) ! i) = a + int i \<and>
   it_wait (snd (snd (downloadFile_loop u dest m tr a le fs)) ! i) =
     (if Suc i < length (snd (snd (downloadFile_loop u dest m tr a le fs)))
      then Some ((a + int i) * 1000) else None)"
proof (induction a le fs arbitrary: i rule: loop_cases[where m = m and u = u and dest = dest and tr = tr])
  case (exit a le fs)
  then show ?case by (simp add: loop_exit)
next
  case (ok a le fs x fs1)
  then show ?case by (simp add: loop_ok)
next
  case (thrown a le fs err fs1 t)
  then show ?case by (simp add: loop_thrown)
next
  case (retry a le fs err fs1 fs2 fs3)
  let ?its = "snd (snd (downloadFile_loop u dest m tr (a + 1) (Some err) fs3))"
  have its: "snd (snd (downloadFile_loop u dest m tr a le fs)) =
      \<lparr>it_attempt = a, it_error = Some err, it_fs = fs3, it_wait = backoff a m\<rparr> # ?its"
    using retry(1-4) by (simp add: loop_retry)
  show ?case
  proof (cases i)
    case 0
    have "?its = [] \<longleftrightarrow> \<not> a < m"
      by (simp add: loop_log_empty add1_zle_eq)
    with 0 its show ?thesis by (auto simp add: backoff_def)
  next
    case (Suc j)
    with its retry.prems have "j < length ?its" by simp
    from retry.IH[OF this] its Suc show ?thesis by (simp add: algebra_simps)
  qed
qed


lemma loop_failed_dest:
  "fs dest \<noteq> Some Dir \<Longrightarrow> i < length (snd (snd (downloadFile_loop u dest m tr a le fs))) \<Longrightarrow>
   it_error (snd (snd (downloadFile_loop u dest m tr a le fs)) ! i) \<noteq> None \<Longrightarrow>
   it_fs (snd (snd (downloadFile_loop u dest m tr a le fs)) ! i) dest =
     (if opens_late (tr (a + int i)) then Some (File []) else None)"
proof (induction a le fs arbitrary: i rule: loop_cases[where m = m and u = u and dest = dest and tr = tr])
  case (exit a le fs)
  then show ?case by (simp add: loop_exit)
next
  case (ok a le fs x fs1)
  then show ?case by (simp add: loop_ok)
next
  case (thrown a le fs err fs1 t)
  from thrown(2) thrown.prems(1) have "fs1 dest \<noteq> Some Dir" by (rule try_attempt_keeps_dir)
  with thrown(3) show ?case by (simp add: cleanup_file)
next
  case (retry a le fs err fs1 fs2 fs3)
  note fi = failed_iteration[OF retry(2) retry.prems(1) retry(3) retry(4)]
  note d = fi(1) and nd = fi(2)
  let ?its = "snd (snd (downloadFile_loop u dest m tr (a + 1) (Some err) fs3))"
  have its: "snd (snd (downloadFile_loop u dest m tr a le fs)) =
      \<lparr>it_attempt = a, it_error = Some err, it_fs = fs3, it_wait = backoff a m\<rparr> # ?its"
    using retry(1-4) by (simp add: loop_retry)
  show ?case
  proof (cases i)
    case 0
    with its d show ?thesis by simp
  next
    case (Suc j)
    with its retry.prems have "j < length ?its" "it_error (?its ! j) \<noteq> None" by simp_all
    from retry.IH[OF nd this] its Suc show ?thesis by (simp add: algebra_simps)
  qed
qed

lemma loop_all_fail:
  "fs dest \<noteq> Some Dir \<Longrightarrow> a \<le> m \<Longrightarrow> \<forall>n. a \<le> n \<and> n \<le> m \<longrightarrow> \<not> succeeds (tr n) \<Longrightarrow>
   fst (downloadFile_loop u dest m tr a le fs) = Inl (exhausted m u (Some (attempt_error u (tr m)))) \<and>
   fst (snd (downloadFile_loop u dest m tr a le fs)) dest =
     (if opens_late (tr m) then Some (File []) else None) \<and>
   (\<forall>q. q \<noteq> dest \<longrightarrow> fst (snd (downloadFile_loop u dest m tr a le fs)) q = fs q) \<and>
   int (length (snd (snd (downloadFile_loop u dest m tr a le fs)))) = m + 1 - a"
proof (induction a le fs rule: loop_cases[where m = m and u = u and dest = dest and tr = tr])
  case (exit a le fs)
  then show ?case by simp
next
  case (ok a le fs x fs1)
  from ok.prems(1) ok.prems(3) ok(1) obtain fs1' where
    "try_attempt u dest (tr a) fs = (Inl (attempt_error u (tr a)), fs1')"
    using try_attempt_failure[of fs dest "tr a" u] by auto
  with ok(2) show ?case by simp
next
  case (thrown a le fs err fs1 t)
  from thrown(2) thrown.prems(1) have "fs1 dest \<noteq> Some Dir" by (rule try_attempt_keeps_dir)
  with thrown(3) show ?case by (simp add: cleanup_file)
next
  case (retry a le fs err fs1 fs2 fs3)
  from retry.prems(1) retry.prems(3) retry(1) obtain fs1' where
    t: "try_attempt u dest (tr a) fs = (Inl (attempt_error u (tr a)), fs1')"
    using try_attempt_failure[of fs dest "tr a" u] by auto
  with retry(2) have err: "err = attempt_error u (tr a)" by simp
  note fi = failed_iteration[OF retry(2) retry.prems(1) retry(3) retry(4)]
  note d = fi(1) and nd = fi(2) and frame = fi(3)
  show ?case
  proof (cases "a + 1 \<le> m")
    case True
    have "\<forall>n. a + 1 \<le> n \<and> n \<le> m \<longrightarrow> \<not> succeeds (tr n)" using retry.prems(3) by simp
    with retry.IH[OF nd True] retry(1-4) frame show ?thesis by (simp add: loop_retry)
  next
    case False
    with retry(1) have "a = m" by simp
    with False retry(1-4) err d frame show ?thesis
      by (simp add: loop_retry loop_exit)
  qed
qed


section \<open>The claims about downloadFile\<close>

lemma list_of_three: "length xs = 3 \<Longrightarrow> xs = [xs ! 0, xs ! 1, xs ! 2]"
  by (auto simp add: numeral_3_eq_3 length_Suc_conv)

lemma loop_log_error:
  "Suc i < length (snd (snd (downloadFile_loop u dest m tr a le fs))) \<Longrightarrow>
   it_error (snd (snd (downloadFile_loop u dest m tr a le fs)) ! i) \<noteq> None"
proof (induction a le fs arbitrary: i rule: loop_cases[where m = m and u = u and dest = dest and tr = tr])
  case (exit a le fs)
  then show ?case by (simp add: loop_exit)
next
  case (ok a le fs x fs1)
  then show ?case by (simp add: loop_ok)
next
  case (thrown a le fs err fs1 t)
  then show ?case by (simp add: loop_thrown)
next
  case (retry a le fs err fs1 fs2 fs3)
  let ?its = "snd (snd (downloadFile_loop u dest m tr (a + 1) (Some err) fs3))"
  have its: "snd (snd (downloadFile_loop u dest m tr a le fs)) =
      \<lparr>it_attempt = a, it_error = Some err, it_fs = fs3, it_wait = backoff a m\<rparr> # ?its"
    using retry(1-4) by (simp add: loop_retry)
  show ?case
  proof (cases i)
    case 0
    with its show ?thesis by simp
  next
    case (Suc j)
    with its retry.prems have "Suc j < length ?its" by simp
    from retry.IH[OF this] its Suc show ?thesis by simp
  qed
qed

text \<open>
  Claim C10. With \<open>maxRetries \<le> 0\<close> the loop body never runs: the call makes no transfer
  attempt (its log of iterations is empty), returns the file system it was given, so a file
  at the destination stays as it was, and throws the error of line 170, whose message
  carries the configured attempt count and renders the \<^verbatim>\<open>null\<close> last error as
  \<^verbatim>\<open>undefined\<close>.
\<close>

theorem downloadFile_without_attempts:
  "maxRetries \<le> 0 \<Longrightarrow>
   downloadFile tr u dest maxRetries fs =
     (Inl (Error (''Download failed after '' @ int_str maxRetries @ '' attempts: '' @ quoted u @
                  ''. Last error: undefined'')),
      fs, [])"
  by (simp add: downloadFile_def loop_exit exhausted_def)

theorem downloadFile_without_attempts_witness:
  "(0::int) \<le> 0 \<and>
   downloadFile (\<lambda>n. Response True 200 (Some (Piped ''new''))) ''https://assets.test/a.db''
       ''src-tauri/resources/a.db'' 0 (no_files(''src-tauri/resources/a.db'' \<mapsto> File ''old'')) =
     (Inl (Error ''Download failed after 0 attempts: 'https://assets.test/a.db'. Last error: undefined''),
      no_files(''src-tauri/resources/a.db'' \<mapsto> File ''old''), [])"
  using downloadFile_without_attempts[of 0 "\<lambda>n. Response True 200 (Some (Piped ''new''))"
      "''https://assets.test/a.db''" "''src-tauri/resources/a.db''"
      "no_files(''src-tauri/resources/a.db'' \<mapsto> File ''old'')"]
  by (simp add: int_str_def nat_str.simps digit_def quoted_def)

text \<open>
  When \<open>maxRetries \<ge> 1\<close> attempts are made and none succeeds, the call throws the error of
  line 170, whose message carries the URL between quotes and the message of the error
  caught at the last attempt, and it has made exactly \<open>maxRetries\<close> attempts. The destination
  is then absent, unless the pipeline of the last attempt broke before the destination was
  opened: then the open completes after the cleanup and an empty file is left.
\<close>

lemma downloadFile_all_fail:
  assumes "1 \<le> maxRetries" and "fs dest \<noteq> Some Dir"
    and "\<forall>n. 1 \<le> n \<and> n \<le> maxRetries \<longrightarrow> \<not> succeeds (tr n)"
  shows "fst (downloadFile tr u dest maxRetries fs) =
           Inl (Error (''Download failed after '' @ int_str maxRetries @ '' attempts: '' @
                       [CHR 0x27] @ u @ [CHR 0x27] @
                       ''. Last error: '' @ message (attempt_error u (tr maxRetries)))) \<and>
         fst (snd (downloadFile tr u dest maxRetries fs)) dest =
           (if opens_late (tr maxRetries) then Some (File []) else None) \<and>
         int (length (snd (snd (downloadFile tr u dest maxRetries fs)))) = maxRetries"
  using loop_all_fail[where fs = fs and dest = dest and a = 1 and m = maxRetries and tr = tr
      and u = u and le = None] assms
  by (simp add: downloadFile_def exhausted_def quoted_def)

text \<open>
  Claim C4. The claim fails on the code at this input: three attempts whose response
  arrives and whose body stream breaks before the write stream has opened the
  destination. The call throws the error of line 170, which does carry the URL and the
  last error; but each \<^verbatim>\<open>catch\<close> block finds no file to unlink, the pending open then
  creates one, and an empty file is at the destination after the call.
\<close>

theorem downloadFile_exhausted_leaves_empty_file:
  "fst (downloadFile (\<lambda>n. Response True 200 (Some (PipeBrokenBeforeOpen (Error ''ECONNRESET''))))
          ''https://h.test/a.db'' ''out/a.db'' 3 (no_files(''out'' \<mapsto> Dir))) =
     Inl (Error ''Download failed after 3 attempts: 'https://h.test/a.db'. Last error: ECONNRESET'') \<and>
   fst (snd (downloadFile (\<lambda>n. Response True 200 (Some (PipeBrokenBeforeOpen (Error ''ECONNRESET''))))
          ''https://h.test/a.db'' ''out/a.db'' 3 (no_files(''out'' \<mapsto> Dir)))) ''out/a.db'' =
     Some (File []) \<and>
   map it_attempt (snd (snd (downloadFile (\<lambda>n. Response True 200 (Some (PipeBrokenBeforeOpen (Error ''ECONNRESET''))))
          ''https://h.test/a.db'' ''out/a.db'' 3 (no_files(''out'' \<mapsto> Dir))))) = [1, 2, 3]"
  by (simp add: downloadFile_def downloadFile_loop.simps try_attempt_def streamPipeline_def
      cleanup_def existsSync_def unlinkSync_def late_open_def backoff_def exhausted_def quoted_def
      no_files_def int_str_def nat_str.simps digit_def)




text \<open>
  Claim C3. The claim fails on the code at this input: a first attempt whose response
  arrives and whose body stream breaks before the write stream has opened the
  destination, then an attempt that succeeds. When the \<^verbatim>\<open>catch\<close> block of the first
  attempt runs there is no file to unlink; the pending open then creates one, and after
  the failed attempt an empty file is at the destination, where there was none before the
  call.
\<close>

theorem failed_attempt_leaves_empty_file:
  "(no_files(''out'' \<mapsto> Dir)) ''out/a.db'' = None \<and>
   map it_error (snd (snd (downloadFile
       (\<lambda>n. if n = 1 then Response True 200 (Some (PipeBrokenBeforeOpen (Error ''ECONNRESET'')))
             else Response True 200 (Some (Piped ''rules'')))
       ''https://h.test/a.db'' ''out/a.db'' 3 (no_files(''out'' \<mapsto> Dir))))) =
     [Some (Error ''ECONNRESET''), None] \<and>
   it_fs (snd (snd (downloadFile
       (\<lambda>n. if n = 1 then Response True 200 (Some (PipeBrokenBeforeOpen (Error ''ECONNRESET'')))
             else Response True 200 (Some (Piped ''rules'')))
       ''https://h.test/a.db'' ''out/a.db'' 3 (no_files(''out'' \<mapsto> Dir)))) ! 0) ''out/a.db'' =
     Some (File [])"
  by (simp add: downloadFile_def downloadFile_loop.simps try_attempt_def streamPipeline_def
      cleanup_def existsSync_def late_open_def backoff_def no_files_def)

text \<open>
  Apart from that outcome the cleanup does what the claim says: after an iteration whose
  attempt failed, the destination is absent unless the pipeline broke before the
  destination was opened.
\<close>

lemma downloadFile_failed_attempt:
  assumes "fs dest \<noteq> Some Dir"
    and "i < length (snd (snd (downloadFile tr u dest maxRetries fs)))"
    and "it_error (snd (snd (downloadFile tr u dest maxRetries fs)) ! i) \<noteq> None"
  shows "it_attempt (snd (snd (downloadFile tr u dest maxRetries fs)) ! i) = int i + 1 \<and>
         it_fs (snd (snd (downloadFile tr u dest maxRetries fs)) ! i) dest =
           (if opens_late (tr (int i + 1)) then Some (File []) else None)"
  using loop_failed_dest[where fs = fs and dest = dest and u = u and m = maxRetries and tr = tr
      and a = 1 and le = None and i = i] loop_log[of i u dest maxRetries tr 1 None fs] assms
  by (simp add: downloadFile_def add.commute)

text \<open>
  Claim C7. In every call the iterations are attempts 1, 2, 3, ... in order. An iteration
  that is followed by another one is a failed attempt \<open>n\<close> and awaits exactly
  \<open>n * 1000\<close> ms before attempt \<open>n + 1\<close> starts; the last iteration awaits nothing.
\<close>

theorem downloadFile_linear_backoff:
  assumes "i < length (snd (snd (downloadFile tr u dest maxRetries fs)))"
  shows "it_attempt (snd (snd (downloadFile tr u dest maxRetries fs)) ! i) = int i + 1 \<and>
         it_wait (snd (snd (downloadFile tr u dest maxRetries fs)) ! i) =
           (if Suc i < length (snd (snd (downloadFile tr u dest maxRetries fs)))
            then Some ((int i + 1) * 1000) else None) \<and>
         (Suc i < length (snd (snd (downloadFile tr u dest maxRetries fs))) \<longrightarrow>
            it_error (snd (snd (downloadFile tr u dest maxRetries fs)) ! i) \<noteq> None)"
  using loop_log[of i u dest maxRetries tr 1 None fs] loop_log_error[of i u dest maxRetries tr 1 None fs]
    assms
  by (simp add: downloadFile_def)

theorem downloadFile_linear_backoff_witness:
  "map it_attempt (snd (snd (downloadFile (\<lambda>n. FetchRejected (Error ''ETIMEDOUT''))
       ''https://h.test/a.db'' ''out/a.db'' 3 no_files))) = [1, 2, 3] \<and>
   map it_wait (snd (snd (downloadFile (\<lambda>n. FetchRejected (Error ''ETIMEDOUT''))
       ''https://h.test/a.db'' ''out/a.db'' 3 no_files))) = [Some 1000, Some 2000, None]"
proof -
  let ?log = "snd (snd (downloadFile (\<lambda>n. FetchRejected (Error ''ETIMEDOUT''))
       ''https://h.test/a.db'' ''out/a.db'' 3 no_files))"
  have len: "length ?log = 3"
    by (simp add: downloadFile_def downloadFile_loop.simps try_attempt_def
        cleanup_def existsSync_def late_open_def backoff_def no_files_def)
  then have l: "?log = [?log ! 0, ?log ! 1, ?log ! 2]"
    by (rule list_of_three)
  have "0 < length ?log" "1 < length ?log" "2 < length ?log" using len by simp_all
  from this[THEN downloadFile_linear_backoff] len
  have "it_attempt (?log ! 0) = 1 \<and> it_wait (?log ! 0) = Some 1000"
    "it_attempt (?log ! 1) = 2 \<and> it_wait (?log ! 1) = Some 2000"
    "it_attempt (?log ! 2) = 3 \<and> it_wait (?log ! 2) = None"
    by simp_all
  then show ?thesis by (subst (1 2) l) simp
qed

section \<open>The tasks that download in place, and the download URL\<close>

lemma ancestors_from_set:
  "set (ancestors_from acc cs) = {q. \<exists>r. q = acc @ r \<and> prefix (r @ ''/'') cs}"
proof (induction cs arbitrary: acc)
  case Nil
  then show ?case by simp
next
  case (Cons c cs)
  have "(\<exists>r. q = acc @ r \<and> prefix (r @ ''/'') (c # cs)) \<longleftrightarrow>
        (q = acc \<and> c = CHR ''/'') \<or> (\<exists>r. q = (acc @ [c]) @ r \<and> prefix (r @ ''/'') cs)" for q
  proof
    assume "\<exists>r. q = acc @ r \<and> prefix (r @ ''/'') (c # cs)"
    then obtain r where r: "q = acc @ r" "prefix (r @ ''/'') (c # cs)" by blast
    show "(q = acc \<and> c = CHR ''/'') \<or> (\<exists>r. q = (acc @ [c]) @ r \<and> prefix (r @ ''/'') cs)"
    proof (cases r)
      case Nil
      with r show ?thesis by simp
    next
      case (Cons x r')
      with r show ?thesis by auto
    qed
  next
    assume "(q = acc \<and> c = CHR ''/'') \<or> (\<exists>r. q = (acc @ [c]) @ r \<and> prefix (r @ ''/'') cs)"
    then show "\<exists>r. q = acc @ r \<and> prefix (r @ ''/'') (c # cs)"
    proof
      assume "q = acc \<and> c = CHR ''/''"
      then show ?thesis by (intro exI[of _ "[]"]) simp
    next
      assume "\<exists>r. q = (acc @ [c]) @ r \<and> prefix (r @ ''/'') cs"
      then obtain r where "q = (acc @ [c]) @ r" "prefix (r @ ''/'') cs" by blast
      then show ?thesis by (intro exI[of _ "c # r"]) simp
    qed
  qed
  with Cons.IH[of "acc @ [c]"] show ?case by auto
qed

text \<open>The ancestors of a path are the directories it lies below.\<close>

lemma ancestors_below: "q \<in> set (ancestors p) \<longleftrightarrow> below q p"
  by (simp add: ancestors_def ancestors_from_set below_def)

lemma ensure_dir_keeps: "ensure_dir refused fs d = Inr fs1 \<Longrightarrow> fs q \<noteq> None \<Longrightarrow> fs1 q = fs q"
  by (auto simp add: ensure_dir_def mkdirSync_recursive_def split: if_splits option.splits)

lemma ensure_dir_exists: "ensure_dir refused fs d = Inr fs1 \<Longrightarrow> fs1 d \<noteq> None"
  by (auto simp add: ensure_dir_def mkdirSync_recursive_def existsSync_def split: if_splits option.splits)

lemma ensure_dir_fails: "ensure_dir refused fs d = Inl err \<Longrightarrow> fs d = None"
  by (auto simp add: ensure_dir_def existsSync_def split: if_splits)


lemma cleanup_frame: "cleanup fs dest = Inr fs2 \<Longrightarrow> q \<noteq> dest \<Longrightarrow> fs2 q = fs q"
  by (auto simp add: cleanup_def unlinkSync_def split: if_splits option.splits node.splits)

lemma loop_frame:
  "q \<noteq> dest \<Longrightarrow> fst (snd (downloadFile_loop u dest m tr a le fs)) q = fs q"
proof (induction a le fs rule: loop_cases[where m = m and u = u and dest = dest and tr = tr])
  case (exit a le fs)
  then show ?case by (simp add: loop_exit)
next
  case (ok a le fs x fs1)
  then show ?case using try_attempt_frame[OF ok(2), of q] by (simp add: loop_ok)
next
  case (thrown a le fs err fs1 t)
  then show ?case using try_attempt_frame[OF thrown(2), of q] by (simp add: loop_thrown)
next
  case (retry a le fs err fs1 fs2 fs3)
  then show ?case
    using try_attempt_frame[OF retry(2), of q] cleanup_frame[OF retry(3), of q]
    by (simp add: loop_retry late_open_frame)
qed





lemma tmpDir_of_transport [simp]: "tmpDir_of (e\<lparr>transport := tr'\<rparr>) platform arch = tmpDir_of e platform arch"
  by (simp add: tmpDir_of_def)

lemma downloadPath_of_transport [simp]:
  "downloadPath_of (e\<lparr>transport := tr'\<rparr>) platform arch = downloadPath_of e platform arch"
  by (simp add: downloadPath_of_def)

lemma extractFile_transport [simp]:
  "extractFile (e\<lparr>transport := tr'\<rparr>) filePath fileExtension tmpDir fs =
   extractFile e filePath fileExtension tmpDir fs"
  by (simp add: extractFile_def split: option.splits node.splits)

lemma extractedFilePath_of_transport [simp]:
  "extractedFilePath_of (e\<lparr>transport := tr'\<rparr>) version platform arch extension =
   extractedFilePath_of e version platform arch extension"
  by (simp add: extractedFilePath_of_def)

lemma unpack_and_place_transport [simp]:
  "unpack_and_place (e\<lparr>transport := tr'\<rparr>) version platform arch extension targetTriple fs =
   unpack_and_place e version platform arch extension targetTriple fs"
  by (simp add: unpack_and_place_def Let_def split: prod.splits sum.splits)

text \<open>
  Claim C8, as amended. For every target the URL is the release base URL, the configured
  version as it is (the release tag, with its leading marker), \<open>/sing-box-\<close>, the version
  without its first character, and \<open>-platform-arch\<close> with the archive extension. This is
  the only URL the installer requests: its result is the same on any network that answers
  that URL the same way.
\<close>

theorem downloadUrl_template:
  "downloadUrl version platform arch =
     ''https://github.com/caocaocc/sing-box/releases/download/'' @ version @ ''/sing-box-'' @
       drop 1 version @ ''-'' @ platform @ ''-'' @ arch @
       (if platform = ''windows'' then ''.zip'' else ''.tar.gz'') \<and>
   (tr' (downloadUrl version platform arch) = transport e (downloadUrl version platform arch) \<longrightarrow>
      embeddingExternalBinaries (e\<lparr>transport := tr'\<rparr>) version platform arch extension targetTriple fs =
      embeddingExternalBinaries e version platform arch extension targetTriple fs)"
proof (intro conjI impI)
  show "downloadUrl version platform arch =
     ''https://github.com/caocaocc/sing-box/releases/download/'' @ version @ ''/sing-box-'' @
       drop 1 version @ ''-'' @ platform @ ''-'' @ arch @
       (if platform = ''windows'' then ''.zip'' else ''.tar.gz'')"
    by (simp add: downloadUrl_def GITHUB_RELEASE_URL_def BINARY_NAME_def fileExtension_of_def)
next
  assume "tr' (downloadUrl version platform arch) = transport e (downloadUrl version platform arch)"
  then show "embeddingExternalBinaries (e\<lparr>transport := tr'\<rparr>) version platform arch extension targetTriple fs =
      embeddingExternalBinaries e version platform arch extension targetTriple fs"
    by (simp add: embeddingExternalBinaries_def Let_def split: prod.splits sum.splits)
qed

text \<open>
  Claim C8, counterexample. For version \<open>v1.12.0\<close> the URL has the release tag \<open>v1.12.0\<close>
  with its leading \<open>v\<close>; it is not the URL with the marker stripped from both occurrences.
\<close>

theorem downloadUrl_stripped_everywhere_counterexample:
  "downloadUrl ''v1.12.0'' ''linux'' ''amd64'' =
     ''https://github.com/caocaocc/sing-box/releases/download/v1.12.0/sing-box-1.12.0-linux-amd64.tar.gz'' \<and>
   downloadUrl ''v1.12.0'' ''linux'' ''amd64'' \<noteq> downloadUrl_all_stripped ''v1.12.0'' ''linux'' ''amd64''"
  by (simp add: downloadUrl_def downloadUrl_all_stripped_def GITHUB_RELEASE_URL_def BINARY_NAME_def
      fileExtension_of_def)

theorem downloadUrl_template_witness:
  "downloadUrl ''v1.12.0'' ''windows'' ''amd64'' =
     ''https://github.com/caocaocc/sing-box/releases/download/v1.12.0/sing-box-1.12.0-windows-amd64.zip'' \<and>
   (\<lambda>u n. if u = SYSPROXY_URL then Response False 404 None else transport healthy_env u n)
       (downloadUrl ''v1.12.0'' ''windows'' ''amd64'') =
     transport healthy_env (downloadUrl ''v1.12.0'' ''windows'' ''amd64'') \<and>
   embeddingExternalBinaries
       (healthy_env\<lparr>transport := (\<lambda>u n. if u = SYSPROXY_URL then Response False 404 None
                                          else transport healthy_env u n)\<rparr>)
       ''v1.12.0'' ''windows'' ''amd64'' ''.exe'' ''x86_64-pc-windows-msvc'' no_files =
     embeddingExternalBinaries healthy_env ''v1.12.0'' ''windows'' ''amd64'' ''.exe''
       ''x86_64-pc-windows-msvc'' no_files"
proof -
  let ?tr = "\<lambda>u n. if u = SYSPROXY_URL then Response False 404 None else transport healthy_env u n"
  have u: "downloadUrl ''v1.12.0'' ''windows'' ''amd64'' =
     ''https://github.com/caocaocc/sing-box/releases/download/v1.12.0/sing-box-1.12.0-windows-amd64.zip''"
    using downloadUrl_template[of "''v1.12.0''" "''windows''" "''amd64''"] by simp
  have h: "?tr (downloadUrl ''v1.12.0'' ''windows'' ''amd64'') =
      transport healthy_env (downloadUrl ''v1.12.0'' ''windows'' ''amd64'')"
    by (simp add: u SYSPROXY_URL_def)
  from downloadUrl_template[of "''v1.12.0''" "''windows''" "''amd64''" ?tr healthy_env "''.exe''"
      "''x86_64-pc-windows-msvc''" no_files] h u
  show ?thesis by simp
qed



section \<open>The temporary directory of the installer\<close>

lemmas path_defs = tmpDir_of_def downloadPath_of_def extractedFilePath_of_def targetPath_of_def
  fileName_of_def fileExtension_of_def path_join_def path_dirname_def BINARY_NAME_def
  int_str_def nat_str.simps digit_def

lemmas fs_defs = ensure_dir_def existsSync_def mkdirSync_recursive_def ancestors_def
  rmSync_recursive_def renameSync_def unlinkSync_def below_def no_files_def write_entries_def

lemmas download_defs = downloadFile_def downloadFile_loop.simps try_attempt_def streamPipeline_def
  cleanup_def late_open_def backoff_def exhausted_def default_maxRetries_def downloadUrl_def
  GITHUB_RELEASE_URL_def quoted_def

lemma scenario_tmpDir:
  "tmpDir_of scenario_env ''linux'' ''amd64'' = ''scripts/tmp/linux-amd64-1700000000000-k3x9q''"
  by (simp add: path_defs scenario_env_def)


lemma path_join_neq [simp]: "path_join d rel \<noteq> d" "d \<noteq> path_join d rel"
  by (simp_all add: path_join_def)

lemma write_entries_dir: "write_entries fs d es d = fs d"
  by (induction es arbitrary: fs) (simp_all add: write_entries_def split: prod.splits)

lemma extractFile_keeps_dir: "snd (extractFile e f x d fs) d = fs d"
  by (simp add: extractFile_def write_entries_dir split: option.splits node.splits prod.splits)

lemma unpack_and_place_failure:
  assumes "fst (unpack_and_place e version platform arch extension targetTriple fs) \<noteq> Inr ()"
    and "fs (tmpDir_of e platform arch) \<noteq> None"
  shows "snd (unpack_and_place e version platform arch extension targetTriple fs) (tmpDir_of e platform arch) \<noteq> None"
proof -
  let ?tmp = "tmpDir_of e platform arch"
  let ?x = "extractFile e (downloadPath_of e platform arch) (fileExtension_of platform) ?tmp fs"
  obtain r fs1 where x: "?x = (r, fs1)" by (cases ?x)
  have "snd ?x ?tmp \<noteq> None"
    using assms(2) by (simp add: extractFile_keeps_dir)
  with x have k: "fs1 ?tmp \<noteq> None" by simp
  show ?thesis
  proof (cases r)
    case (Inl err)
    with k x show ?thesis by (simp add: unpack_and_place_def)
  next
    case (Inr y)
    show ?thesis
    proof (cases "ensure_dir (mkdir_error e) fs1 (path_dirname (targetPath_of targetTriple extension))")
      case (Inl err)
      with k x \<open>r = Inr y\<close> show ?thesis by (simp add: unpack_and_place_def Let_def)
    next
      case fs2: (Inr fs2)
      from ensure_dir_keeps[OF fs2 k] k have "fs2 ?tmp \<noteq> None" by simp
      with x \<open>r = Inr y\<close> fs2 assms(1) show ?thesis
        by (auto simp add: unpack_and_place_def Let_def split: sum.splits)
    qed
  qed
qed

lemma unpack_and_place_success:
  assumes "fst (unpack_and_place e version platform arch extension targetTriple fs) = Inr ()"
  shows "snd (unpack_and_place e version platform arch extension targetTriple fs) (tmpDir_of e platform arch) = None \<and>
         (\<forall>q. below (tmpDir_of e platform arch) q \<longrightarrow>
              snd (unpack_and_place e version platform arch extension targetTriple fs) q = None)"
  using assms
  by (auto simp add: unpack_and_place_def Let_def rmSync_recursive_def split: prod.splits sum.splits)

text \<open>
  Claim C2, as amended. The installer removes its temporary directory, and all below it,
  when it succeeds. When it fails and the directory was there or could be created, so at
  the fetch, at the extraction and at every later step, the directory is still there when
  the task ends: the \<^verbatim>\<open>catch\<close> block logs and rethrows, and the only removal is the last
  statement of the \<^verbatim>\<open>try\<close> block. When creating the directory throws, the task ends
  with that error and the file system as it was, without the directory.
\<close>

theorem tmpDir_removed_on_success_only:
  "(fst (embeddingExternalBinaries e version platform arch extension targetTriple fs) = Inr () \<longrightarrow>
      snd (embeddingExternalBinaries e version platform arch extension targetTriple fs)
        (tmpDir_of e platform arch) = None \<and>
      (\<forall>q. below (tmpDir_of e platform arch) q \<longrightarrow>
           snd (embeddingExternalBinaries e version platform arch extension targetTriple fs) q = None)) \<and>
   (fst (embeddingExternalBinaries e version platform arch extension targetTriple fs) \<noteq> Inr () \<and>
    \<not> isl (ensure_dir (mkdir_error e) fs (tmpDir_of e platform arch)) \<longrightarrow>
      snd (embeddingExternalBinaries e version platform arch extension targetTriple fs)
        (tmpDir_of e platform arch) \<noteq> None) \<and>
   (isl (ensure_dir (mkdir_error e) fs (tmpDir_of e platform arch)) \<longrightarrow>
      embeddingExternalBinaries e version platform arch extension targetTriple fs =
        (Inl (projl (ensure_dir (mkdir_error e) fs (tmpDir_of e platform arch))), fs) \<and>
      fs (tmpDir_of e platform arch) = None)"
proof (cases "ensure_dir (mkdir_error e) fs (tmpDir_of e platform arch)")
  case (Inl err)
  then have "embeddingExternalBinaries e version platform arch extension targetTriple fs = (Inl err, fs)"
    by (simp add: embeddingExternalBinaries_def Let_def)
  with Inl ensure_dir_fails[OF Inl] show ?thesis by simp
next
  case fs1: (Inr fs1)
  let ?tmp = "tmpDir_of e platform arch"
  let ?u = "downloadUrl version platform arch"
  let ?d = "downloadFile (transport e ?u) ?u (downloadPath_of e platform arch) default_maxRetries fs1"
  have "?tmp \<noteq> downloadPath_of e platform arch" by (simp add: downloadPath_of_def)
  then have "fst (snd ?d) ?tmp = fs1 ?tmp"
    using loop_frame[of ?tmp "downloadPath_of e platform arch" ?u default_maxRetries "transport e ?u" 1 None fs1]
    by (simp add: downloadFile_def)
  with ensure_dir_exists[OF fs1] have k: "fst (snd ?d) ?tmp \<noteq> None" by simp
  obtain r fs2 its where d: "?d = (r, fs2, its)" by (cases ?d)
  show ?thesis
  proof (cases r)
    case (Inl err)
    with d k fs1 show ?thesis by (simp add: embeddingExternalBinaries_def Let_def)
  next
    case (Inr x)
    with d k fs1 show ?thesis
      using unpack_and_place_failure[of e version platform arch extension targetTriple fs2]
        unpack_and_place_success[of e version platform arch extension targetTriple fs2]
      by (simp add: embeddingExternalBinaries_def Let_def)
  qed
qed

theorem tmpDir_removed_on_success_only_witness:
  "fst (embeddingExternalBinaries healthy_env ''v1.12.0'' ''linux'' ''amd64'' [] ''x86_64-unknown-linux-gnu'' no_files) = Inr () \<and>
   snd (embeddingExternalBinaries healthy_env ''v1.12.0'' ''linux'' ''amd64'' [] ''x86_64-unknown-linux-gnu'' no_files)
     (tmpDir_of healthy_env ''linux'' ''amd64'') = None \<and>
   snd (embeddingExternalBinaries healthy_env ''v1.12.0'' ''linux'' ''amd64'' [] ''x86_64-unknown-linux-gnu'' no_files)
     (downloadPath_of healthy_env ''linux'' ''amd64'') = None \<and>
   snd (embeddingExternalBinaries healthy_env ''v1.12.0'' ''linux'' ''amd64'' [] ''x86_64-unknown-linux-gnu'' no_files)
     ''src-tauri/binaries/sing-box-x86_64-unknown-linux-gnu'' = Some (File ''ELF'') \<and>
   fst (embeddingExternalBinaries healthy_env ''v1.12.5'' ''linux'' ''amd64'' [] ''x86_64-unknown-linux-gnu'' no_files) \<noteq> Inr () \<and>
   \<not> isl (ensure_dir (mkdir_error healthy_env) no_files (tmpDir_of healthy_env ''linux'' ''amd64'')) \<and>
   snd (embeddingExternalBinaries healthy_env ''v1.12.5'' ''linux'' ''amd64'' [] ''x86_64-unknown-linux-gnu'' no_files)
     (tmpDir_of healthy_env ''linux'' ''amd64'') \<noteq> None \<and>
   isl (ensure_dir (mkdir_error read_only_env) no_files (tmpDir_of read_only_env ''linux'' ''amd64'')) \<and>
   embeddingExternalBinaries read_only_env ''v1.12.0'' ''linux'' ''amd64'' [] ''x86_64-unknown-linux-gnu'' no_files =
     (Inl (Error ''EROFS: read-only file system, mkdir''), no_files)"
proof -
  have ok: "fst (embeddingExternalBinaries healthy_env ''v1.12.0'' ''linux'' ''amd64'' [] ''x86_64-unknown-linux-gnu'' no_files) = Inr ()"
    and target: "snd (embeddingExternalBinaries healthy_env ''v1.12.0'' ''linux'' ''amd64'' [] ''x86_64-unknown-linux-gnu'' no_files)
     ''src-tauri/binaries/sing-box-x86_64-unknown-linux-gnu'' = Some (File ''ELF'')"
    by (simp_all add: embeddingExternalBinaries_def unpack_and_place_def extractFile_def path_defs fs_defs
        download_defs healthy_env_def scenario_env_def release_entries_def Let_def)
  have missing: "fst (embeddingExternalBinaries healthy_env ''v1.12.5'' ''linux'' ''amd64'' [] ''x86_64-unknown-linux-gnu'' no_files) \<noteq> Inr ()"
    by (simp add: embeddingExternalBinaries_def unpack_and_place_def extractFile_def path_defs fs_defs
        download_defs healthy_env_def scenario_env_def release_entries_def Let_def)
  have made: "\<not> isl (ensure_dir (mkdir_error healthy_env) no_files (tmpDir_of healthy_env ''linux'' ''amd64''))"
    by (simp add: path_defs fs_defs healthy_env_def scenario_env_def)
  have refused: "ensure_dir (mkdir_error read_only_env) no_files (tmpDir_of read_only_env ''linux'' ''amd64'') =
      Inl (Error ''EROFS: read-only file system, mkdir'')"
    by (simp add: ensure_dir_def existsSync_def mkdirSync_recursive_def no_files_def read_only_env_def)
  have below: "below (tmpDir_of healthy_env ''linux'' ''amd64'') (downloadPath_of healthy_env ''linux'' ''amd64'')"
    by (simp add: below_def downloadPath_of_def path_join_def)
  from tmpDir_removed_on_success_only[of healthy_env "''v1.12.0''" "''linux''" "''amd64''" "[]"
      "''x86_64-unknown-linux-gnu''" no_files]
    tmpDir_removed_on_success_only[of healthy_env "''v1.12.5''" "''linux''" "''amd64''" "[]"
      "''x86_64-unknown-linux-gnu''" no_files]
    tmpDir_removed_on_success_only[of read_only_env "''v1.12.0''" "''linux''" "''amd64''" "[]"
      "''x86_64-unknown-linux-gnu''" no_files]
    ok target missing made refused below
  show ?thesis by simp
qed

text \<open>
  Claim C2, counterexample. On a network where every request for the archive fails the
  installer ends with the error of \<^verbatim>\<open>downloadFile\<close> and its temporary directory is still
  there; when the archive arrives and the extraction fails, the directory and the archive
  in it are still there.
\<close>

theorem tmpDir_always_removed_counterexample:
  "fst (embeddingExternalBinaries scenario_env ''v1.12.0'' ''linux'' ''amd64'' [] ''x86_64-unknown-linux-gnu'' no_files) =
     Inl (exhausted 3 (downloadUrl ''v1.12.0'' ''linux'' ''amd64'') (Some (Error ''ECONNREFUSED''))) \<and>
   snd (embeddingExternalBinaries scenario_env ''v1.12.0'' ''linux'' ''amd64'' [] ''x86_64-unknown-linux-gnu'' no_files)
     (tmpDir_of scenario_env ''linux'' ''amd64'') = Some Dir \<and>
   fst (embeddingExternalBinaries broken_archive_env ''v1.12.0'' ''linux'' ''amd64'' [] ''x86_64-unknown-linux-gnu'' no_files) =
     Inl (Error ''TAR_BAD_ARCHIVE: Unrecognized archive format'') \<and>
   snd (embeddingExternalBinaries broken_archive_env ''v1.12.0'' ''linux'' ''amd64'' [] ''x86_64-unknown-linux-gnu'' no_files)
     (tmpDir_of broken_archive_env ''linux'' ''amd64'') = Some Dir \<and>
   snd (embeddingExternalBinaries broken_archive_env ''v1.12.0'' ''linux'' ''amd64'' [] ''x86_64-unknown-linux-gnu'' no_files)
     (downloadPath_of broken_archive_env ''linux'' ''amd64'') = Some (File ''bytes'')"
  by (simp add: embeddingExternalBinaries_def unpack_and_place_def extractFile_def path_defs fs_defs
      download_defs broken_archive_env_def healthy_env_def scenario_env_def)

section \<open>The orchestrator\<close>

lemma settle_cases:
  "settle c = Pending c' \<Longrightarrow> c' = c \<and> \<not> list_ex (\<lambda>t. rejected (snd t)) (cfg_tasks c)"
  "settle c = Exited code c' \<Longrightarrow>
     c' = c \<and> (code = 1 \<and> list_ex (\<lambda>t. rejected (snd t)) (cfg_tasks c) \<or>
               code = 0 \<and> \<not> list_ex (\<lambda>t. rejected (snd t)) (cfg_tasks c) \<and>
                 list_all (\<lambda>t. fulfilled (snd t)) (cfg_tasks c))"
  "settle c \<noteq> Uncaught err c'"
  by (auto simp add: settle_def split: if_splits)

lemma run_settled: "settle c = Exited code c' \<Longrightarrow> run e version sched c = Exited code c'"
  by (cases sched) simp_all

lemma run_append:
  "run e version (s1 @ s2) c =
     (case run e version s1 c of Pending c' \<Rightarrow> run e version s2 c' | p \<Rightarrow> p)"
proof (induction s1 arbitrary: c)
  case Nil
  show ?case
  proof (cases "settle c")
    case (Pending c')
    then show ?thesis using settle_cases(1)[OF Pending] by simp
  next
    case (Exited code c')
    then show ?thesis by (simp add: run_settled)
  next
    case (Uncaught err c')
    then show ?thesis using settle_cases(3)[of c err c'] by simp
  qed
next
  case (Cons i s1)
  then show ?case by (cases "settle c") simp_all
qed

text \<open>A run that ends with a rejected task has exited with status 1.\<close>

lemma run_rejected:
  "list_ex (\<lambda>t. rejected (snd t)) (cfg_tasks (final_config (run e version sched c))) \<Longrightarrow>
   run e version sched c = Exited 1 (final_config (run e version sched c))"
proof (induction sched arbitrary: c)
  case Nil
  then show ?case by (auto simp add: settle_def split: if_splits)
next
  case (Cons i sched)
  show ?case
  proof (cases "settle c")
    case (Pending c')
    with Cons.IH[of "advance e version i c"] Cons.prems show ?thesis by simp
  next
    case (Exited code c')
    with settle_cases(2)[OF Exited] Cons.prems show ?thesis by auto
  next
    case (Uncaught err c')
    then show ?thesis using settle_cases(3)[of c err c'] by simp
  qed
qed

lemma one_attempt: "1 \<le> default_maxRetries"
  by (simp add: default_maxRetries_def)

lemma launch_cases:
  "(\<exists>err. launch e version j c = c\<lparr>cfg_tasks := cfg_tasks c @ [(j, Rejected err)]\<rparr>) \<or>
   (\<exists>fs. launch e version j c =
      \<lparr>cfg_fs = fs, cfg_tasks = cfg_tasks c @ [(j, Fetching 1)],
       cfg_requests = cfg_requests c @ [(job_url version j, 1)]\<rparr>)"
proof (cases "launch_fs e j (cfg_fs c)")
  case (Inl err)
  then have "launch e version j c = c\<lparr>cfg_tasks := cfg_tasks c @ [(j, Rejected err)]\<rparr>"
    by (simp add: launch_def)
  then show ?thesis by blast
next
  case (Inr fs)
  then have "launch e version j c =
      \<lparr>cfg_fs = fs, cfg_tasks = cfg_tasks c @ [(j, Fetching 1)],
       cfg_requests = cfg_requests c @ [(job_url version j, 1)]\<rparr>"
    by (simp add: launch_def loop_head_def one_attempt)
  then show ?thesis by blast
qed

lemma fold_launch_length:
  "length (cfg_tasks (fold (launch e version) js c)) = length (cfg_tasks c) + length js"
proof (induction js arbitrary: c)
  case Nil
  then show ?case by simp
next
  case (Cons j js)
  from launch_cases[of e version j c] have "length (cfg_tasks (launch e version j c)) = Suc (length (cfg_tasks c))"
    by auto
  with Cons.IH[of "launch e version j c"] show ?case by simp
qed

text \<open>When no task is rejected at its start, each has sent its first request.\<close>

lemma fold_launch_ok:
  "\<not> list_ex (\<lambda>t. rejected (snd t)) (cfg_tasks (fold (launch e version) js c)) \<Longrightarrow>
   \<not> list_ex (\<lambda>t. rejected (snd t)) (cfg_tasks c) \<and>
   length (cfg_requests (fold (launch e version) js c)) = length (cfg_requests c) + length js"
proof (induction js arbitrary: c)
  case Nil
  then show ?case by simp
next
  case (Cons j js)
  from Cons.prems have n: "\<not> list_ex (\<lambda>t. rejected (snd t)) (cfg_tasks (fold (launch e version) js (launch e version j c)))"
    by simp
  from Cons.IH[OF n] have l: "\<not> list_ex (\<lambda>t. rejected (snd t)) (cfg_tasks (launch e version j c))"
    and r: "length (cfg_requests (fold (launch e version) js (launch e version j c))) =
        length (cfg_requests (launch e version j c)) + length js"
    by simp_all
  from launch_cases[of e version j c] l
  have "\<not> list_ex (\<lambda>t. rejected (snd t)) (cfg_tasks c) \<and>
        length (cfg_requests (launch e version j c)) = Suc (length (cfg_requests c))"
    by auto
  with r show ?case by simp
qed

lemma scenario_downloadPath:
  "downloadPath_of scenario_env ''linux'' ''amd64'' =
     ''scripts/tmp/linux-amd64-1700000000000-k3x9q/sing-box-linux-amd64.tar.gz''"
  by (simp add: path_defs scenario_env_def)

lemma scenario_mkdir_error: "mkdir_error scenario_env p = None"
  by (simp add: scenario_env_def)

lemma scenario_launch:
  "snd (launch_all scenario_env ''v1.12.0'' scenario_matrix scenario_assets no_files) = None"
  "scenario_inv (fst (launch_all scenario_env ''v1.12.0'' scenario_matrix scenario_assets no_files))"
  "snd (cfg_tasks (fst (launch_all scenario_env ''v1.12.0'' scenario_matrix scenario_assets no_files)) ! 0) = Fetching 1"
  by (simp_all add: scenario_inv_def launch_all_def launch_def loop_head_def default_maxRetries_def
      jobs_of_matrix_def scenario_matrix_def scenario_assets_def scenario_archive_def scenario_asset_def
      scenario_downloadPath scenario_tmpDir scenario_mkdir_error fs_defs resourcesDir_def Let_def)

lemma list_of_two: "length xs = 2 \<Longrightarrow> xs = [xs ! 0, xs ! 1]"
  by (auto simp add: numeral_2_eq_2 length_Suc_conv)

lemma scenario_archive_step:
  assumes "archive_pc p" and "fs (downloadPath_of scenario_env ''linux'' ''amd64'') = None"
  shows "\<exists>p' rq. task_step scenario_env ''v1.12.0'' scenario_archive p fs = (p', fs, rq) \<and> archive_pc p' \<and>
           archive_steps_left p' = archive_steps_left p - 1"
proof (cases p)
  case (Fetching n)
  with assms(1) have "n = 1 \<or> n = 2 \<or> n = 3" by auto
  with Fetching assms(2) show ?thesis
    by (auto simp add: task_step_def fetch_step_def catch_step_def late_open_def scenario_archive_def
        scenario_env_def cleanup_def existsSync_def backoff_def default_maxRetries_def loop_head_def
        downloadUrl_def GITHUB_RELEASE_URL_def)
next
  case (Sleeping n err)
  with assms(1) have "n = 1 \<or> n = 2" by auto
  with Sleeping show ?thesis
    by (auto simp add: task_step_def loop_head_def default_maxRetries_def)
qed (use assms(1) in \<open>simp_all add: task_step_def\<close>)

lemma scenario_asset_step:
  assumes "asset_pc p" and "fs ''src-tauri/resources/a.db'' = asset_file p"
  shows "\<exists>p' fs' rq. task_step scenario_env ''v1.12.0'' scenario_asset p fs = (p', fs', rq) \<and>
           asset_pc p' \<and> fs' ''src-tauri/resources/a.db'' = asset_file p' \<and>
           (\<forall>q. q \<noteq> ''src-tauri/resources/a.db'' \<longrightarrow> fs' q = fs q)"
proof (cases p)
  case (Fetching n)
  with assms show ?thesis
    by (simp add: task_step_def fetch_step_def in_flight_def scenario_asset_def scenario_env_def
        resourcesDir_def path_join_def)
next
  case (Streaming n)
  with assms show ?thesis
    by (simp add: task_step_def stream_step_def streamPipeline_def scenario_asset_def scenario_env_def
        resourcesDir_def path_join_def)
next
  case Fulfilled
  with assms show ?thesis by (simp add: task_step_def)
qed (use assms(1) in simp_all)

lemma scenario_invE:
  assumes "scenario_inv c"
  obtains pb pd where "cfg_tasks c = [(scenario_archive, pb), (scenario_asset, pd)]"
    and "archive_pc pb" and "asset_pc pd"
    and "cfg_fs c ''src-tauri/resources/a.db'' = asset_file pd"
    and "cfg_fs c (downloadPath_of scenario_env ''linux'' ''amd64'') = None"
proof -
  from assms have len: "length (cfg_tasks c) = 2" by (simp add: scenario_inv_def)
  from assms have "cfg_tasks c ! 0 = (scenario_archive, snd (cfg_tasks c ! 0))"
    and "cfg_tasks c ! 1 = (scenario_asset, snd (cfg_tasks c ! 1))"
    by (simp_all add: scenario_inv_def prod_eq_iff)
  with list_of_two[OF len]
  have "cfg_tasks c = [(scenario_archive, snd (cfg_tasks c ! 0)), (scenario_asset, snd (cfg_tasks c ! 1))]"
    by simp
  with assms that[of "snd (cfg_tasks c ! 0)" "snd (cfg_tasks c ! 1)"] show thesis
    by (simp add: scenario_inv_def)
qed

lemma archive_pc_pending: "archive_pc p \<Longrightarrow> \<not> fulfilled p \<and> (archive_steps_left p = 0 \<longrightarrow> rejected p)"
  by (cases p) auto

lemma scenario_advance:
  assumes "scenario_inv c"
  shows "scenario_inv (advance scenario_env ''v1.12.0'' i c) \<and>
         archive_steps_left (snd (cfg_tasks (advance scenario_env ''v1.12.0'' i c) ! 0)) =
           (if i = 0 then archive_steps_left (snd (cfg_tasks c ! 0)) - 1
            else archive_steps_left (snd (cfg_tasks c ! 0)))"
proof -
  from assms obtain pb pd where ts: "cfg_tasks c = [(scenario_archive, pb), (scenario_asset, pd)]"
    and inv: "archive_pc pb" "asset_pc pd"
    "cfg_fs c ''src-tauri/resources/a.db'' = asset_file pd"
    "cfg_fs c (downloadPath_of scenario_env ''linux'' ''amd64'') = None"
    by (rule scenario_invE)
  consider "i = 0" | "i = 1" | "2 \<le> i" by linarith
  then show ?thesis
  proof cases
    case 1
    from scenario_archive_step[where p = pb and fs = "cfg_fs c"] inv(1) inv(4) obtain p' rq where
      "task_step scenario_env ''v1.12.0'' scenario_archive pb (cfg_fs c) = (p', cfg_fs c, rq)"
      "archive_pc p'" "archive_steps_left p' = archive_steps_left pb - 1"
      by auto
    with 1 ts inv show ?thesis by (simp add: advance_def scenario_inv_def)
  next
    case 2
    from scenario_asset_step[where p = pd and fs = "cfg_fs c"] inv(2) inv(3) obtain p' fs' rq where
      "task_step scenario_env ''v1.12.0'' scenario_asset pd (cfg_fs c) = (p', fs', rq)"
      "asset_pc p'" "fs' ''src-tauri/resources/a.db'' = asset_file p'"
      "\<And>q. q \<noteq> ''src-tauri/resources/a.db'' \<Longrightarrow> fs' q = cfg_fs c q"
      by auto
    with 2 ts inv show ?thesis by (simp add: advance_def scenario_inv_def scenario_downloadPath)
  next
    case 3
    with ts assms show ?thesis by (simp add: advance_def)
  qed
qed

lemma scenario_run:
  assumes "scenario_inv c"
  shows "scenario_inv (final_config (run scenario_env ''v1.12.0'' sched c)) \<and>
         exit_status (run scenario_env ''v1.12.0'' sched c) \<noteq> Some 0 \<and>
         (archive_steps_left (snd (cfg_tasks c ! 0)) \<le> count_list sched 0 \<longrightarrow>
            exit_status (run scenario_env ''v1.12.0'' sched c) = Some 1)"
  using assms
proof (induction sched arbitrary: c)
  case Nil
  from Nil obtain pb pd where ts: "cfg_tasks c = [(scenario_archive, pb), (scenario_asset, pd)]"
    and pb: "archive_pc pb"
    by (rule scenario_invE)
  with Nil archive_pc_pending[OF pb] show ?case by (auto simp add: settle_def)
next
  case (Cons i sched)
  from Cons.prems obtain pb pd where ts: "cfg_tasks c = [(scenario_archive, pb), (scenario_asset, pd)]"
    and pb: "archive_pc pb"
    by (rule scenario_invE)
  show ?case
  proof (cases "list_ex (\<lambda>t. rejected (snd t)) (cfg_tasks c)")
    case True
    with Cons.prems show ?thesis by (simp add: settle_def)
  next
    case False
    with ts archive_pc_pending[OF pb] have r: "run scenario_env ''v1.12.0'' (i # sched) c =
        run scenario_env ''v1.12.0'' sched (advance scenario_env ''v1.12.0'' i c)"
      by (simp add: settle_def)
    from scenario_advance[OF Cons.prems, of i] Cons.IH[of "advance scenario_env ''v1.12.0'' i c"]
    show ?thesis unfolding r by (auto split: if_splits)
  qed
qed

lemmas machine_defs = orchestrate_def settle_def advance_def task_step_def fetch_step_def stream_step_def
  catch_step_def in_flight_def loop_head_def launch_all_def launch_def jobs_of_matrix_def
  scenario_matrix_def scenario_assets_def resourcesDir_def

lemma scenario_run_archive_first:
  "orchestrate scenario_env ''v1.12.0'' scenario_matrix scenario_assets [0, 0, 0, 0, 0] no_files =
     Exited 1 (final_config (orchestrate scenario_env ''v1.12.0'' scenario_matrix scenario_assets [0, 0, 0, 0, 0] no_files)) \<and>
   cfg_tasks (final_config
      (orchestrate scenario_env ''v1.12.0'' scenario_matrix scenario_assets [0, 0, 0, 0, 0] no_files)) =
     [(scenario_archive,
       Rejected (exhausted 3 (downloadUrl ''v1.12.0'' ''linux'' ''amd64'') (Some (Error ''ECONNREFUSED'')))),
      (scenario_asset, Fetching 1)] \<and>
   cfg_fs (final_config
      (orchestrate scenario_env ''v1.12.0'' scenario_matrix scenario_assets [0, 0, 0, 0, 0] no_files))
     ''src-tauri/resources/a.db'' = None"
  by (simp add: machine_defs path_defs fs_defs download_defs scenario_env_def Let_def
      scenario_archive_def scenario_asset_def)

lemma scenario_run_asset_streaming:
  "orchestrate scenario_env ''v1.12.0'' scenario_matrix scenario_assets [1, 0, 0, 0, 0, 0] no_files =
     Exited 1 (final_config (orchestrate scenario_env ''v1.12.0'' scenario_matrix scenario_assets [1, 0, 0, 0, 0, 0] no_files)) \<and>
   cfg_tasks (final_config
      (orchestrate scenario_env ''v1.12.0'' scenario_matrix scenario_assets [1, 0, 0, 0, 0, 0] no_files)) =
     [(scenario_archive,
       Rejected (exhausted 3 (downloadUrl ''v1.12.0'' ''linux'' ''amd64'') (Some (Error ''ECONNREFUSED'')))),
      (scenario_asset, Streaming 1)] \<and>
   cfg_fs (final_config
      (orchestrate scenario_env ''v1.12.0'' scenario_matrix scenario_assets [1, 0, 0, 0, 0, 0] no_files))
     ''src-tauri/resources/a.db'' = Some (File ''ru'')"
  by (simp add: machine_defs path_defs fs_defs download_defs scenario_env_def Let_def
      scenario_archive_def scenario_asset_def)

lemma scenario_run_asset_first:
  "orchestrate scenario_env ''v1.12.0'' scenario_matrix scenario_assets [1, 1, 0, 0, 0, 0, 0] no_files =
     Exited 1 (final_config (orchestrate scenario_env ''v1.12.0'' scenario_matrix scenario_assets [1, 1, 0, 0, 0, 0, 0] no_files)) \<and>
   cfg_tasks (final_config
      (orchestrate scenario_env ''v1.12.0'' scenario_matrix scenario_assets [1, 1, 0, 0, 0, 0, 0] no_files)) =
     [(scenario_archive,
       Rejected (exhausted 3 (downloadUrl ''v1.12.0'' ''linux'' ''amd64'') (Some (Error ''ECONNREFUSED'')))),
      (scenario_asset, Fulfilled)] \<and>
   cfg_fs (final_config
      (orchestrate scenario_env ''v1.12.0'' scenario_matrix scenario_assets [1, 1, 0, 0, 0, 0, 0] no_files))
     ''src-tauri/resources/a.db'' = Some (File ''rules'')"
  by (simp add: machine_defs path_defs fs_defs download_defs scenario_env_def Let_def
      scenario_archive_def scenario_asset_def)


subsection \<open>The machine and the functions agree\<close>

text \<open>What is on disk while a pipeline is pending does not change how it ends.\<close>

lemma streamPipeline_in_flight:
  "streamPipeline (in_flight k fs dest pr) dest pr = streamPipeline fs dest pr"
  by (cases pr) (auto simp add: streamPipeline_def in_flight_def split: option.splits)

text \<open>One iteration of the loop, as the machine takes it: the response, then the pipeline
  if there is a body, up to the return of \<^verbatim>\<open>downloadFile\<close> or the end of the \<^verbatim>\<open>catch\<close> block.\<close>

lemma solo_attempt:
  "\<exists>k. (solo_step e version j ^^ k) (Fetching a, fs) =
     (case try_attempt (job_url version j) (job_dest e j) (transport e (job_url version j) a) fs of
        (Inr x, fs1) \<Rightarrow> (after_download j, fs1)
      | (Inl err, fs1) \<Rightarrow>
          (fst (catch_step (job_url version j) (job_dest e j) a err (transport e (job_url version j) a) fs1),
           fst (snd (catch_step (job_url version j) (job_dest e j) a err (transport e (job_url version j) a) fs1))))"
proof -
  let ?u = "job_url version j" and ?d = "job_dest e j"
  let ?r = "transport e ?u a"
  let ?goal = "\<lambda>k. (solo_step e version j ^^ k) (Fetching a, fs) =
     (case try_attempt ?u ?d ?r fs of
        (Inr x, fs1) \<Rightarrow> (after_download j, fs1)
      | (Inl err, fs1) \<Rightarrow> (fst (catch_step ?u ?d a err ?r fs1), fst (snd (catch_step ?u ?d a err ?r fs1))))"
  have one: "?goal 1" if "\<And>st pr. ?r \<noteq> Response True st (Some pr)"
  proof (cases ?r)
    case (FetchRejected err)
    then show ?thesis
      by (simp add: solo_step_def task_step_def fetch_step_def try_attempt_def split: prod.splits)
  next
    case (Response ok st body)
    with that[of st] have "\<not> ok \<or> body = None" by (cases body) auto
    with Response show ?thesis
      by (auto simp add: solo_step_def task_step_def fetch_step_def try_attempt_def split: prod.splits)
  qed
  have two: "?goal 2" if r: "?r = Response True st (Some pr)" for st pr
  proof -
    have s1: "solo_step e version j (Fetching a, fs) = (Streaming a, in_flight (flushed e ?u a) fs ?d pr)"
      using r by (simp add: solo_step_def task_step_def fetch_step_def)
    have t: "try_attempt ?u ?d ?r fs = streamPipeline fs ?d pr"
      using r by (simp add: try_attempt_def)
    have s2: "solo_step e version j (Streaming a, in_flight (flushed e ?u a) fs ?d pr) =
        (case streamPipeline fs ?d pr of
           (Inr x, fs1) \<Rightarrow> (after_download j, fs1)
         | (Inl err, fs1) \<Rightarrow> (fst (catch_step ?u ?d a err ?r fs1), fst (snd (catch_step ?u ?d a err ?r fs1))))"
      using r
      by (auto simp add: solo_step_def task_step_def stream_step_def streamPipeline_in_flight
          split: prod.splits sum.splits)
    from s1 s2 t show ?thesis by (simp add: numeral_2_eq_2)
  qed
  show ?thesis
  proof (cases "\<exists>st pr. ?r = Response True st (Some pr)")
    case True
    then obtain st pr where "?r = Response True st (Some pr)" by blast
    from two[OF this] show ?thesis by blast
  next
    case False
    then have "\<And>st pr. ?r \<noteq> Response True st (Some pr)" by blast
    from one[OF this] show ?thesis by blast
  qed
qed

lemma solo_loop:
  "a \<le> default_maxRetries \<Longrightarrow>
   \<exists>k. (solo_step e version j ^^ k) (Fetching a, fs) =
     (case fst (downloadFile_loop (job_url version j) (job_dest e j) default_maxRetries
                  (transport e (job_url version j)) a le fs) of
        Inl err \<Rightarrow> Rejected err | Inr x \<Rightarrow> after_download j,
      fst (snd (downloadFile_loop (job_url version j) (job_dest e j) default_maxRetries
                  (transport e (job_url version j)) a le fs)))"
proof (induction a le fs rule: loop_cases[where m = default_maxRetries and u = "job_url version j"
      and dest = "job_dest e j" and tr = "transport e (job_url version j)"])
  case (exit a le fs)
  then show ?case by simp
next
  case (ok a le fs x fs1)
  from solo_attempt[of e version j a fs] ok(2) obtain k where
    "(solo_step e version j ^^ k) (Fetching a, fs) = (after_download j, fs1)"
    by auto
  with ok show ?case by (metis loop_ok fst_conv snd_conv sum.simps(6))
next
  case (thrown a le fs err fs1 t)
  from solo_attempt[of e version j a fs] thrown(2,3) obtain k where
    "(solo_step e version j ^^ k) (Fetching a, fs) = (Rejected t, fs1)"
    by (auto simp add: catch_step_def)
  with thrown show ?case by (metis loop_thrown fst_conv snd_conv sum.simps(5))
next
  case (retry a le fs err fs1 fs2 fs3)
  let ?L = "downloadFile_loop (job_url version j) (job_dest e j) default_maxRetries
                  (transport e (job_url version j)) (a + 1) (Some err) fs3"
  have L: "downloadFile_loop (job_url version j) (job_dest e j) default_maxRetries
                  (transport e (job_url version j)) a le fs = (fst ?L, fst (snd ?L),
       \<lparr>it_attempt = a, it_error = Some err, it_fs = fs3, it_wait = backoff a default_maxRetries\<rparr> # snd (snd ?L))"
    using retry(1-4) by (rule loop_retry)
  show ?case
  proof (cases "a + 1 \<le> default_maxRetries")
    case True
    from solo_attempt[of e version j a fs] retry(2-4) True obtain k0 where
      k0: "(solo_step e version j ^^ k0) (Fetching a, fs) = (Sleeping a err, fs3)"
      by (auto simp add: catch_step_def backoff_def)
    have s: "solo_step e version j (Sleeping a err, fs3) = (Fetching (a + 1), fs3)"
      using True by (simp add: solo_step_def task_step_def loop_head_def)
    from retry.IH[OF True] obtain k where
      k: "(solo_step e version j ^^ k) (Fetching (a + 1), fs3) =
           (case fst ?L of Inl err \<Rightarrow> Rejected err | Inr x \<Rightarrow> after_download j, fst (snd ?L))"
      by blast
    have "(solo_step e version j ^^ (k + (1 + k0))) (Fetching a, fs) =
        (solo_step e version j ^^ k) (solo_step e version j ((solo_step e version j ^^ k0) (Fetching a, fs)))"
      by (simp add: funpow_add funpow_swap1)
    with k0 s k have "(solo_step e version j ^^ (k + (1 + k0))) (Fetching a, fs) =
           (case fst ?L of Inl err \<Rightarrow> Rejected err | Inr x \<Rightarrow> after_download j, fst (snd ?L))"
      by simp
    then show ?thesis unfolding L by (intro exI[of _ "k + (1 + k0)"]) simp
  next
    case False
    with retry(1) have am: "a = default_maxRetries" by simp
    from False have Lx: "?L = (Inl (exhausted default_maxRetries (job_url version j) (Some err)), fs3, [])"
      by (simp add: loop_exit)
    from solo_attempt[of e version j a fs] retry(2-4) am obtain k0 where
      "(solo_step e version j ^^ k0) (Fetching a, fs) =
         (Rejected (exhausted default_maxRetries (job_url version j) (Some err)), fs3)"
      by (auto simp add: catch_step_def backoff_def loop_head_def)
    then show ?thesis unfolding L Lx by (intro exI[of _ k0]) simp
  qed
qed

text \<open>
  A task that runs alone through its steps ends as the function it embeds: the program
  counter it settles in and the file system it leaves are the result and the file system
  of \<open>database_task\<close>, \<open>sysproxy_task\<close> and \<open>embeddingExternalBinaries\<close>; and when a task
  cannot make its directory, the function throws that error at once.
\<close>

lemma database_task_alone:
  "\<exists>k. (solo_step e version (Database name u) ^^ k) (Fetching 1, fs) =
     (settled_as (fst (database_task e name u fs)), fst (snd (database_task e name u fs)))"
proof -
  let ?L = "downloadFile_loop u (path_join resourcesDir name) default_maxRetries (transport e u) 1 None fs"
  from solo_loop[OF one_attempt, of e version "Database name u" fs None] obtain k where
    "(solo_step e version (Database name u) ^^ k) (Fetching 1, fs) =
       (case fst ?L of Inl err \<Rightarrow> Rejected err | Inr x \<Rightarrow> after_download (Database name u),
        fst (snd ?L))"
    by auto
  then show ?thesis
    by (intro exI[of _ k]) (cases "fst ?L"; simp add: database_task_def downloadFile_def)
qed

lemma sysproxy_task_alone:
  "case launch_fs e (Sysproxy targetTriple extension) fs of
     Inl err \<Rightarrow> sysproxy_task e targetTriple extension fs = (Inl err, fs, [])
   | Inr fs1 \<Rightarrow>
       (\<exists>k. (solo_step e version (Sysproxy targetTriple extension) ^^ k) (Fetching 1, fs1) =
          (settled_as (fst (sysproxy_task e targetTriple extension fs)),
           fst (snd (sysproxy_task e targetTriple extension fs))))"
proof (cases "launch_fs e (Sysproxy targetTriple extension) fs")
  case (Inl err)
  then show ?thesis by (simp add: sysproxy_task_def Let_def)
next
  case (Inr fs1)
  let ?L = "downloadFile_loop SYSPROXY_URL (sysproxy_targetPath targetTriple extension) default_maxRetries
              (transport e SYSPROXY_URL) 1 None fs1"
  from solo_loop[OF one_attempt, of e version "Sysproxy targetTriple extension" fs1 None] obtain k where
    "(solo_step e version (Sysproxy targetTriple extension) ^^ k) (Fetching 1, fs1) =
       (case fst ?L of Inl err \<Rightarrow> Rejected err
        | Inr x \<Rightarrow> after_download (Sysproxy targetTriple extension), fst (snd ?L))"
    by auto
  then have "(solo_step e version (Sysproxy targetTriple extension) ^^ k) (Fetching 1, fs1) =
          (settled_as (fst (sysproxy_task e targetTriple extension fs)),
           fst (snd (sysproxy_task e targetTriple extension fs)))"
    using Inr by (cases "fst ?L"; simp add: sysproxy_task_def downloadFile_def Let_def)
  with Inr show ?thesis by auto
qed

lemma embeddingExternalBinaries_alone:
  "case launch_fs e (Binary platform arch extension targetTriple) fs of
     Inl err \<Rightarrow> embeddingExternalBinaries e version platform arch extension targetTriple fs = (Inl err, fs)
   | Inr fs1 \<Rightarrow>
       (\<exists>k. (solo_step e version (Binary platform arch extension targetTriple) ^^ k) (Fetching 1, fs1) =
          (settled_as (fst (embeddingExternalBinaries e version platform arch extension targetTriple fs)),
           snd (embeddingExternalBinaries e version platform arch extension targetTriple fs)))"
proof (cases "launch_fs e (Binary platform arch extension targetTriple) fs")
  case (Inl err)
  then show ?thesis by (simp add: embeddingExternalBinaries_def Let_def)
next
  case fs1: (Inr fs1)
  let ?j = "Binary platform arch extension targetTriple"
  let ?u = "downloadUrl version platform arch"
  let ?L = "downloadFile_loop ?u (downloadPath_of e platform arch) default_maxRetries (transport e ?u) 1 None fs1"
  from solo_loop[OF one_attempt, of e version ?j fs1 None] obtain k where
    k: "(solo_step e version ?j ^^ k) (Fetching 1, fs1) =
       (case fst ?L of Inl err \<Rightarrow> Rejected err | Inr x \<Rightarrow> after_download ?j, fst (snd ?L))"
    by auto
  obtain r fs2 its where L: "?L = (r, fs2, its)" by (cases ?L)
  have E: "embeddingExternalBinaries e version platform arch extension targetTriple fs =
      (case r of Inl err \<Rightarrow> (Inl err, fs2)
       | Inr x \<Rightarrow> unpack_and_place e version platform arch extension targetTriple fs2)"
    using fs1 by (simp add: embeddingExternalBinaries_def downloadFile_def Let_def L split: sum.splits)
  have "\<exists>k. (solo_step e version ?j ^^ k) (Fetching 1, fs1) =
          (settled_as (fst (embeddingExternalBinaries e version platform arch extension targetTriple fs)),
           snd (embeddingExternalBinaries e version platform arch extension targetTriple fs))"
  proof (cases r)
    case (Inl err)
    with k L E show ?thesis by (intro exI[of _ k]) simp
  next
    case (Inr x)
    let ?R = "unpack_and_place e version platform arch extension targetTriple fs2"
    from Inr k L have "(solo_step e version ?j ^^ k) (Fetching 1, fs1) = (Extracting, fs2)" by simp
    moreover have "solo_step e version ?j (Extracting, fs2) = (settled_as (fst ?R), snd ?R)"
      by (cases ?R; cases "fst ?R") (simp_all add: solo_step_def task_step_def)
    ultimately have "(solo_step e version ?j ^^ Suc k) (Fetching 1, fs1) = (settled_as (fst ?R), snd ?R)"
      by simp
    with Inr E show ?thesis by (intro exI[of _ "Suc k"]) simp
  qed
  with fs1 show ?thesis by simp
qed


subsection \<open>The claims about the orchestrator\<close>

lemma advance_grows:
  "length (cfg_tasks (advance e version i c)) = length (cfg_tasks c) \<and>
   length (cfg_requests c) \<le> length (cfg_requests (advance e version i c))"
  by (simp add: advance_def split: prod.splits)

lemma run_grows:
  "length (cfg_tasks (final_config (run e version sched c))) = length (cfg_tasks c) \<and>
   length (cfg_requests c) \<le> length (cfg_requests (final_config (run e version sched c)))"
proof (induction sched arbitrary: c)
  case Nil
  then show ?case by (simp add: settle_def)
next
  case (Cons i sched)
  show ?case
  proof (cases "settle c")
    case (Pending c')
    with Cons[of "advance e version i c"] advance_grows[of e version i c] show ?thesis by simp
  next
    case (Exited code c')
    with settle_cases(2)[OF Exited] show ?thesis by simp
  next
    case (Uncaught err c')
    then show ?thesis using settle_cases(3)[of c err c'] by simp
  qed
qed

lemma jobs_of_RUST_TARGET_TRIPLES:
  "jobs_of_matrix RUST_TARGET_TRIPLES =
     [Binary ''darwin'' ''arm64'' [] ''aarch64-apple-darwin'',
      Binary ''darwin'' ''amd64'' [] ''x86_64-apple-darwin'',
      Binary ''linux'' ''amd64'' [] ''x86_64-unknown-linux-gnu'',
      Binary ''linux'' ''arm64'' [] ''aarch64-unknown-linux-gnu'',
      Binary ''windows'' ''amd64'' ''.exe'' ''x86_64-pc-windows-msvc'',
      Sysproxy ''x86_64-pc-windows-msvc'' ''.exe'']"
  by (simp add: jobs_of_matrix_def RUST_TARGET_TRIPLES_def Let_def)

text \<open>What the start of all tasks leaves: the tasks of the matrix in any case, and those of
  the database files unless their directory could not be made; when nothing was rejected,
  one request for each.\<close>

lemma launch_all_length:
  "length (cfg_tasks (fst (launch_all e version m dbs fs0))) =
     length (jobs_of_matrix m) + (if snd (launch_all e version m dbs fs0) = None then length dbs else 0)"
  by (simp add: launch_all_def Let_def fold_launch_length split: sum.splits)

lemma launch_all_ok:
  assumes "snd (launch_all e version m dbs fs0) = None"
    and "\<not> list_ex (\<lambda>t. rejected (snd t)) (cfg_tasks (fst (launch_all e version m dbs fs0)))"
  shows "length (cfg_requests (fst (launch_all e version m dbs fs0))) = length (jobs_of_matrix m) + length dbs"
proof -
  let ?c0 = "\<lparr>cfg_fs = fs0, cfg_tasks = [], cfg_requests = []\<rparr>"
  let ?c1 = "fold (launch e version) (jobs_of_matrix m) ?c0"
  let ?dbjobs = "map (\<lambda>(name, u). Database name u) dbs"
  from assms(1) obtain fs where
    l: "launch_all e version m dbs fs0 = (fold (launch e version) ?dbjobs (?c1\<lparr>cfg_fs := fs\<rparr>), None)"
    by (auto simp add: launch_all_def Let_def split: sum.splits)
  with assms(2) have n: "\<not> list_ex (\<lambda>t. rejected (snd t)) (cfg_tasks (fold (launch e version) ?dbjobs (?c1\<lparr>cfg_fs := fs\<rparr>)))"
    by simp
  from fold_launch_ok[OF n] have n1: "\<not> list_ex (\<lambda>t. rejected (snd t)) (cfg_tasks ?c1)"
    and r: "length (cfg_requests (fold (launch e version) ?dbjobs (?c1\<lparr>cfg_fs := fs\<rparr>))) =
        length (cfg_requests ?c1) + length dbs"
    by simp_all
  from fold_launch_ok[OF n1] have "length (cfg_requests ?c1) = length (jobs_of_matrix m)" by simp
  with r l show ?thesis by simp
qed

text \<open>
  Claim C6. When the configured version is in the skip list the script throws at its top
  level, for any environment and schedule: no task has been started, no request has been
  sent, the file system is as it was, and the process ends with status 1. The test is the
  first thing the script does and the only place where the list is read. For any other
  version tasks are started: the six of the target table in any case, and, when no
  directory fails to be made at their start, all eight with their eight first requests.
\<close>

theorem main_skips_listed_version:
  "(version \<in> set SkipVersionList \<longrightarrow>
      main e version sched fs0 =
        Uncaught (Error (''Version '' @ version @ '' is in the skip list.''))
          \<lparr>cfg_fs = fs0, cfg_tasks = [], cfg_requests = []\<rparr> \<and>
      exit_status (main e version sched fs0) = Some 1) \<and>
   (version \<notin> set SkipVersionList \<longrightarrow>
      6 \<le> length (cfg_tasks (final_config (main e version sched fs0))) \<and>
      (snd (launch_all e version RUST_TARGET_TRIPLES dbFiles fs0) = None \<and>
       \<not> list_ex (\<lambda>t. rejected (snd t))
           (cfg_tasks (fst (launch_all e version RUST_TARGET_TRIPLES dbFiles fs0))) \<longrightarrow>
         length (cfg_tasks (final_config (main e version sched fs0))) = 8 \<and>
         8 \<le> length (cfg_requests (final_config (main e version sched fs0)))))"
proof (intro conjI impI)
  assume "version \<in> set SkipVersionList"
  then show "main e version sched fs0 =
        Uncaught (Error (''Version '' @ version @ '' is in the skip list.''))
          \<lparr>cfg_fs = fs0, cfg_tasks = [], cfg_requests = []\<rparr>"
    and "exit_status (main e version sched fs0) = Some 1"
    by (simp_all add: main_def)
next
  let ?l = "launch_all e version RUST_TARGET_TRIPLES dbFiles fs0"
  assume "version \<notin> set SkipVersionList"
  then have m: "main e version sched fs0 =
      (case ?l of (c, Some err) \<Rightarrow> Exited 1 c | (c, None) \<Rightarrow> run e version sched c)"
    by (simp add: main_def orchestrate_def)
  have len: "length (cfg_tasks (fst ?l)) = 6 + (if snd ?l = None then 2 else 0)"
    by (simp add: launch_all_length jobs_of_RUST_TARGET_TRIPLES dbFiles_def)
  show "6 \<le> length (cfg_tasks (final_config (main e version sched fs0)))"
  proof (cases "snd ?l")
    case None
    with m have "main e version sched fs0 = run e version sched (fst ?l)"
      by (cases ?l) simp
    with run_grows[of e version sched "fst ?l"] len show ?thesis by simp
  next
    case (Some err)
    with m have "main e version sched fs0 = Exited 1 (fst ?l)"
      by (cases ?l) simp
    with len show ?thesis by simp
  qed
  assume ok: "snd ?l = None \<and> \<not> list_ex (\<lambda>t. rejected (snd t)) (cfg_tasks (fst ?l))"
  with m have r: "main e version sched fs0 = run e version sched (fst ?l)"
    by (cases ?l) simp
  from ok launch_all_ok[of e version RUST_TARGET_TRIPLES dbFiles fs0]
  have "length (cfg_requests (fst ?l)) = 8"
    by (simp add: jobs_of_RUST_TARGET_TRIPLES dbFiles_def)
  with run_grows[of e version sched "fst ?l"] len ok
  show "length (cfg_tasks (final_config (main e version sched fs0))) = 8"
    and "8 \<le> length (cfg_requests (final_config (main e version sched fs0)))"
    by (simp_all add: r)
qed

lemma healthy_launch:
  "snd (launch_all healthy_env ''v1.12.0'' RUST_TARGET_TRIPLES dbFiles no_files) = None"
  "\<not> list_ex (\<lambda>t. rejected (snd t))
      (cfg_tasks (fst (launch_all healthy_env ''v1.12.0'' RUST_TARGET_TRIPLES dbFiles no_files)))"
  by (simp_all add: launch_all_def launch_def loop_head_def default_maxRetries_def
      jobs_of_RUST_TARGET_TRIPLES dbFiles_def path_defs fs_defs sysproxy_targetPath_def resourcesDir_def
      healthy_env_def scenario_env_def Let_def)

theorem main_skips_listed_version_witness:
  "''v1.12.5'' \<in> set SkipVersionList \<and>
   cfg_tasks (final_config (main healthy_env ''v1.12.5'' [0, 1, 2] no_files)) = [] \<and>
   cfg_requests (final_config (main healthy_env ''v1.12.5'' [0, 1, 2] no_files)) = [] \<and>
   exit_status (main healthy_env ''v1.12.5'' [0, 1, 2] no_files) = Some 1 \<and>
   ''v1.12.0'' \<notin> set SkipVersionList \<and>
   length (cfg_tasks (final_config (main healthy_env ''v1.12.0'' [0, 1, 2] no_files))) = 8"
proof -
  have h: "''v1.12.5'' \<in> set SkipVersionList" and g: "''v1.12.0'' \<notin> set SkipVersionList"
    by (simp_all add: SkipVersionList_def)
  from main_skips_listed_version[of "''v1.12.5''" healthy_env "[0, 1, 2]" no_files]
    main_skips_listed_version[of "''v1.12.0''" healthy_env "[0, 1, 2]" no_files] h g healthy_launch
  show ?thesis by simp
qed

text \<open>
  On a volume that cannot be written no directory can be made: the six tasks of the target
  table are rejected at their start, \<^verbatim>\<open>downloadDatabaseFiles\<close> throws before it creates its
  two tasks, no request is sent, and the process exits with status 1.
\<close>

lemma main_on_read_only_volume:
  "length (cfg_tasks (final_config (main read_only_env ''v1.12.0'' sched no_files))) = 6 \<and>
   list_all (\<lambda>t. rejected (snd t)) (cfg_tasks (final_config (main read_only_env ''v1.12.0'' sched no_files))) \<and>
   cfg_requests (final_config (main read_only_env ''v1.12.0'' sched no_files)) = [] \<and>
   exit_status (main read_only_env ''v1.12.0'' sched no_files) = Some 1"
  by (simp add: main_def SkipVersionList_def orchestrate_def launch_all_def launch_def
      jobs_of_RUST_TARGET_TRIPLES dbFiles_def ensure_dir_def existsSync_def mkdirSync_recursive_def
      no_files_def read_only_env_def Let_def)

text \<open>
  Claim C1, as amended. Whenever a task has failed, or \<^verbatim>\<open>downloadDatabaseFiles\<close> itself,
  the process has exited with status 1, and the outcome stays what it is however the
  schedule goes on: the exit comes with the first failure, and the tasks still in flight
  are not waited for. No task is cancelled by another: a step of one task, a failing one
  included, leaves the state of every other task as it is. In the scenario of one archive
  whose requests all fail and one asset that arrives, every run in which the archive task
  takes its five steps exits with status 1, and the asset is on disk, complete, if the
  asset task was fulfilled by then.
\<close>

theorem orchestrate_exits_at_first_failure:
  "(list_ex (\<lambda>t. rejected (snd t)) (cfg_tasks (final_config (orchestrate e version m dbs sched fs0))) \<or>
    snd (launch_all e version m dbs fs0) \<noteq> None \<longrightarrow>
      orchestrate e version m dbs sched fs0 = Exited 1 (final_config (orchestrate e version m dbs sched fs0)) \<and>
      (\<forall>more. orchestrate e version m dbs (sched @ more) fs0 = orchestrate e version m dbs sched fs0)) \<and>
   (k \<noteq> i \<longrightarrow> cfg_tasks (advance e version i c) ! k = cfg_tasks c ! k) \<and>
   (5 \<le> count_list sched 0 \<longrightarrow>
      exit_status (orchestrate scenario_env ''v1.12.0'' scenario_matrix scenario_assets sched no_files) = Some 1 \<and>
      (snd (cfg_tasks (final_config
          (orchestrate scenario_env ''v1.12.0'' scenario_matrix scenario_assets sched no_files)) ! 1) = Fulfilled \<longrightarrow>
       cfg_fs (final_config (orchestrate scenario_env ''v1.12.0'' scenario_matrix scenario_assets sched no_files))
          ''src-tauri/resources/a.db'' = Some (File ''rules'')))"
proof (intro conjI impI allI)
  assume f: "list_ex (\<lambda>t. rejected (snd t)) (cfg_tasks (final_config (orchestrate e version m dbs sched fs0))) \<or>
    snd (launch_all e version m dbs fs0) \<noteq> None"
  obtain c0 thrown where l: "launch_all e version m dbs fs0 = (c0, thrown)"
    by (cases "launch_all e version m dbs fs0")
  have "orchestrate e version m dbs sched fs0 = Exited 1 (final_config (orchestrate e version m dbs sched fs0)) \<and>
      (\<forall>more. orchestrate e version m dbs (sched @ more) fs0 = orchestrate e version m dbs sched fs0)"
  proof (cases thrown)
    case (Some err)
    with l show ?thesis by (simp add: orchestrate_def)
  next
    case None
    with l have o: "\<And>s. orchestrate e version m dbs s fs0 = run e version s c0"
      by (simp add: orchestrate_def)
    from f l None have "list_ex (\<lambda>t. rejected (snd t)) (cfg_tasks (final_config (run e version sched c0)))"
      by (simp add: o)
    then have p: "run e version sched c0 = Exited 1 (final_config (run e version sched c0))"
      by (rule run_rejected)
    from p have "run e version (sched @ more) c0 = run e version sched c0" for more
      by (subst run_append) (cases "run e version sched c0"; simp)
    with p show ?thesis by (simp add: o)
  qed
  then show "orchestrate e version m dbs sched fs0 = Exited 1 (final_config (orchestrate e version m dbs sched fs0))"
    and "\<And>more. orchestrate e version m dbs (sched @ more) fs0 = orchestrate e version m dbs sched fs0"
    by simp_all
next
  assume "k \<noteq> i"
  then show "cfg_tasks (advance e version i c) ! k = cfg_tasks c ! k"
    by (simp add: advance_def split: prod.splits)
next
  let ?c0 = "fst (launch_all scenario_env ''v1.12.0'' scenario_matrix scenario_assets no_files)"
  let ?p = "orchestrate scenario_env ''v1.12.0'' scenario_matrix scenario_assets sched no_files"
  assume five: "5 \<le> count_list sched 0"
  have o: "?p = run scenario_env ''v1.12.0'' sched ?c0"
    using scenario_launch(1)
    by (cases "launch_all scenario_env ''v1.12.0'' scenario_matrix scenario_assets no_files")
       (simp add: orchestrate_def)
  from scenario_run[OF scenario_launch(2), of sched] scenario_launch(3) five
  have inv: "scenario_inv (final_config ?p)" and ex: "exit_status ?p = Some 1"
    by (simp_all add: o)
  from ex show "exit_status ?p = Some 1" .
  assume "snd (cfg_tasks (final_config ?p) ! 1) = Fulfilled"
  with inv show "cfg_fs (final_config ?p) ''src-tauri/resources/a.db'' = Some (File ''rules'')"
    by (simp add: scenario_inv_def)
qed

theorem orchestrate_exits_at_first_failure_witness:
  "list_ex (\<lambda>t. rejected (snd t)) (cfg_tasks (final_config
      (orchestrate scenario_env ''v1.12.0'' scenario_matrix scenario_assets [1, 1, 0, 0, 0, 0, 0] no_files))) \<and>
   (5::nat) \<le> count_list [1, 1, 0, 0, 0, 0, 0] 0 \<and> (1::nat) \<noteq> 0 \<and>
   orchestrate scenario_env ''v1.12.0'' scenario_matrix scenario_assets [1, 1, 0, 0, 0, 0, 0] no_files =
     Exited 1 (final_config
       (orchestrate scenario_env ''v1.12.0'' scenario_matrix scenario_assets [1, 1, 0, 0, 0, 0, 0] no_files)) \<and>
   orchestrate scenario_env ''v1.12.0'' scenario_matrix scenario_assets ([1, 1, 0, 0, 0, 0, 0] @ [1, 1, 0]) no_files =
     orchestrate scenario_env ''v1.12.0'' scenario_matrix scenario_assets [1, 1, 0, 0, 0, 0, 0] no_files \<and>
   cfg_tasks (advance scenario_env ''v1.12.0'' 0
       (fst (launch_all scenario_env ''v1.12.0'' scenario_matrix scenario_assets no_files))) ! 1 =
     cfg_tasks (fst (launch_all scenario_env ''v1.12.0'' scenario_matrix scenario_assets no_files)) ! 1 \<and>
   snd (cfg_tasks (final_config
      (orchestrate scenario_env ''v1.12.0'' scenario_matrix scenario_assets [1, 1, 0, 0, 0, 0, 0] no_files)) ! 1) = Fulfilled \<and>
   cfg_fs (final_config
      (orchestrate scenario_env ''v1.12.0'' scenario_matrix scenario_assets [1, 1, 0, 0, 0, 0, 0] no_files))
     ''src-tauri/resources/a.db'' = Some (File ''rules'') \<and>
   snd (launch_all read_only_env ''v1.12.0'' scenario_matrix scenario_assets no_files) =
     Some (Error ''EROFS: read-only file system, mkdir'') \<and>
   exit_status (orchestrate read_only_env ''v1.12.0'' scenario_matrix scenario_assets [1, 1] no_files) = Some 1"
proof -
  let ?p = "orchestrate scenario_env ''v1.12.0'' scenario_matrix scenario_assets [1, 1, 0, 0, 0, 0, 0] no_files"
  let ?ts = "cfg_tasks (final_config ?p)"
  let ?c0 = "fst (launch_all scenario_env ''v1.12.0'' scenario_matrix scenario_assets no_files)"
  from scenario_run_asset_first have ts: "?ts =
      [(scenario_archive,
        Rejected (exhausted 3 (downloadUrl ''v1.12.0'' ''linux'' ''amd64'') (Some (Error ''ECONNREFUSED'')))),
       (scenario_asset, Fulfilled)]"
    by simp
  have rej: "list_ex (\<lambda>t. rejected (snd t)) ?ts" unfolding ts by simp
  have ful: "snd (?ts ! 1) = Fulfilled" unfolding ts by simp
  have five: "(5::nat) \<le> count_list [1, 1, 0, 0, 0, 0, 0] 0" by simp
  have neq: "(1::nat) \<noteq> 0" by simp
  note t = orchestrate_exits_at_first_failure[where e = scenario_env and version = "''v1.12.0''"
      and m = scenario_matrix and dbs = scenario_assets and sched = "[1, 1, 0, 0, 0, 0, 0]"
      and ?fs0.0 = no_files and k = 1 and i = 0 and c = ?c0]
  from t rej have a: "?p = Exited 1 (final_config ?p)" by blast
  from t rej have b: "orchestrate scenario_env ''v1.12.0'' scenario_matrix scenario_assets
      ([1, 1, 0, 0, 0, 0, 0] @ [1, 1, 0]) no_files = ?p" by blast
  from t neq have d: "cfg_tasks (advance scenario_env ''v1.12.0'' 0 ?c0) ! 1 = cfg_tasks ?c0 ! 1" by blast
  from t five ful have c: "cfg_fs (final_config ?p) ''src-tauri/resources/a.db'' = Some (File ''rules'')"
    by blast
  have ro: "snd (launch_all read_only_env ''v1.12.0'' scenario_matrix scenario_assets no_files) =
      Some (Error ''EROFS: read-only file system, mkdir'')"
    by (simp add: launch_all_def launch_def jobs_of_matrix_def scenario_matrix_def scenario_assets_def
        ensure_dir_def existsSync_def mkdirSync_recursive_def no_files_def read_only_env_def Let_def)
  note t' = orchestrate_exits_at_first_failure[where e = read_only_env and version = "''v1.12.0''"
      and m = scenario_matrix and dbs = scenario_assets and sched = "[1, 1]" and ?fs0.0 = no_files]
  from ro have "snd (launch_all read_only_env ''v1.12.0'' scenario_matrix scenario_assets no_files) \<noteq> None"
    by simp
  with t' have "orchestrate read_only_env ''v1.12.0'' scenario_matrix scenario_assets [1, 1] no_files =
      Exited 1 (final_config (orchestrate read_only_env ''v1.12.0'' scenario_matrix scenario_assets [1, 1] no_files))"
    by blast
  then have e: "exit_status (orchestrate read_only_env ''v1.12.0'' scenario_matrix scenario_assets [1, 1] no_files) = Some 1"
    by (cases "orchestrate read_only_env ''v1.12.0'' scenario_matrix scenario_assets [1, 1] no_files") simp_all
  from rej five neq a b d ful c ro e show ?thesis by (intro conjI)
qed

text \<open>
  Claim C1, counterexample. In the scenario, when the three attempts of the archive task
  and its two waits complete before the response for the asset does, the process exits
  with status 1 while the asset task is still waiting for its first response, and the asset
  is not on disk. When they complete while the body of the asset is being streamed, the
  process exits with status 1 while the asset task is still pending, and the file on disk
  is a part of the asset.
\<close>

theorem waits_for_all_tasks_counterexample:
  "exit_status (orchestrate scenario_env ''v1.12.0'' scenario_matrix scenario_assets [0, 0, 0, 0, 0] no_files) = Some 1 \<and>
   cfg_tasks (final_config
      (orchestrate scenario_env ''v1.12.0'' scenario_matrix scenario_assets [0, 0, 0, 0, 0] no_files)) =
     [(scenario_archive,
       Rejected (exhausted 3 (downloadUrl ''v1.12.0'' ''linux'' ''amd64'') (Some (Error ''ECONNREFUSED'')))),
      (scenario_asset, Fetching 1)] \<and>
   cfg_fs (final_config
      (orchestrate scenario_env ''v1.12.0'' scenario_matrix scenario_assets [0, 0, 0, 0, 0] no_files))
     ''src-tauri/resources/a.db'' = None \<and>
   exit_status (orchestrate scenario_env ''v1.12.0'' scenario_matrix scenario_assets [1, 0, 0, 0, 0, 0] no_files) = Some 1 \<and>
   cfg_tasks (final_config
      (orchestrate scenario_env ''v1.12.0'' scenario_matrix scenario_assets [1, 0, 0, 0, 0, 0] no_files)) =
     [(scenario_archive,
       Rejected (exhausted 3 (downloadUrl ''v1.12.0'' ''linux'' ''amd64'') (Some (Error ''ECONNREFUSED'')))),
      (scenario_asset, Streaming 1)] \<and>
   cfg_fs (final_config
      (orchestrate scenario_env ''v1.12.0'' scenario_matrix scenario_assets [1, 0, 0, 0, 0, 0] no_files))
     ''src-tauri/resources/a.db'' = Some (File ''ru'')"
proof -
  let ?a = "orchestrate scenario_env ''v1.12.0'' scenario_matrix scenario_assets [0, 0, 0, 0, 0] no_files"
  let ?b = "orchestrate scenario_env ''v1.12.0'' scenario_matrix scenario_assets [1, 0, 0, 0, 0, 0] no_files"
  from scenario_run_archive_first have "exit_status ?a = Some 1" by (cases ?a) simp_all
  moreover from scenario_run_asset_streaming have "exit_status ?b = Some 1" by (cases ?b) simp_all
  ultimately show ?thesis using scenario_run_archive_first scenario_run_asset_streaming by simp
qed

end
